theory Spec2Isabelle
  imports Complex_Main "HOL-Library.Multiset"
begin

section \<open>Arrays and Python errors\<close>

text \<open>
  The trainer of \<^verbatim>\<open>src/lm/mlbl.py\<close> is Python 2 code (it uses the \<^verbatim>\<open>print\<close>
  statement and has no \<^verbatim>\<open>from __future__ import division\<close>), so \<^verbatim>\<open>/\<close> between two
  integers is floor division. A two-dimensional numpy array is a list of rows, a
  three-dimensional one a list of matrices. Floating-point numbers are idealised as reals
  in the numerical methods (\<^verbatim>\<open>forward\<close>, \<^verbatim>\<open>backward\<close>, \<^verbatim>\<open>update_params\<close>); the training
  loop is written over an arbitrary element type, so that non-finite values can be given
  to it.
\<close>

type_synonym 'a matrix = "'a list list"
type_synonym 'a tensor3 = "'a list list list"

datatype py_error = ZeroDivisionError | IndexError | ValueError

text \<open>The shape of an array: the lengths of its rows (of the rows of its matrices).\<close>

definition dims :: "'a matrix \<Rightarrow> nat list" where
  "dims A = map length A"

definition dims3 :: "'a tensor3 \<Rightarrow> nat list list" where
  "dims3 A = map dims A"

text \<open>Elementwise arithmetic of numpy on arrays of equal shape, and scalar multiples.\<close>

definition vsmul :: "real \<Rightarrow> real list \<Rightarrow> real list" where
  "vsmul c v = map (\<lambda>x. c * x) v"

definition vadd :: "real list \<Rightarrow> real list \<Rightarrow> real list" where
  "vadd u v = map2 (+) u v"

definition vsub :: "real list \<Rightarrow> real list \<Rightarrow> real list" where
  "vsub u v = map2 (-) u v"

definition smul :: "real \<Rightarrow> real matrix \<Rightarrow> real matrix" where
  "smul c A = map (vsmul c) A"

definition madd :: "real matrix \<Rightarrow> real matrix \<Rightarrow> real matrix" where
  "madd A B = map2 vadd A B"

definition msub :: "real matrix \<Rightarrow> real matrix \<Rightarrow> real matrix" where
  "msub A B = map2 vsub A B"

definition smul3 :: "real \<Rightarrow> real tensor3 \<Rightarrow> real tensor3" where
  "smul3 c A = map (smul c) A"

definition add3 :: "real tensor3 \<Rightarrow> real tensor3 \<Rightarrow> real tensor3" where
  "add3 A B = map2 madd A B"

definition sub3 :: "real tensor3 \<Rightarrow> real tensor3 \<Rightarrow> real tensor3" where
  "sub3 A B = map2 msub A B"

text \<open>\<^verbatim>\<open>A / c\<close> for a scalar \<^verbatim>\<open>c\<close>.\<close>

definition sdiv :: "real matrix \<Rightarrow> real \<Rightarrow> real matrix" where
  "sdiv A c = map (map (\<lambda>x. x / c)) A"

text \<open>
  Broadcasting of a one-dimensional array against the rows of a matrix, as in
  \<^verbatim>\<open>self.deltaB - c * self.db\<close> where \<^verbatim>\<open>deltaB\<close> has shape (1, V) and \<^verbatim>\<open>db\<close> shape (V,).
\<close>

definition msub_row :: "real matrix \<Rightarrow> real list \<Rightarrow> real matrix" where
  "msub_row A v = map (\<lambda>row. vsub row v) A"

definition madd_row :: "real matrix \<Rightarrow> real list \<Rightarrow> real matrix" where
  "madd_row A v = map (\<lambda>row. vadd row v) A"

section \<open>The model object\<close>

text \<open>
  The fields of \<^verbatim>\<open>MLBL\<close> that the methods below read or write (\<^verbatim>\<open>name\<close>, \<^verbatim>\<open>loc\<close>,
  \<^verbatim>\<open>k\<close> and \<^verbatim>\<open>verbose\<close> are never read by them); \<^verbatim>\<open>context\<close> is spelt
  \<open>context_len\<close>. The gradients \<^verbatim>\<open>dR\<close>, ..., \<^verbatim>\<open>dBj\<close>
  are the attributes that \<^verbatim>\<open>backward\<close> packs; \<^verbatim>\<open>db\<close> and \<^verbatim>\<open>dBj\<close> are one-dimensional.
\<close>

record 'a mlbl =
  seed :: int
  dropout :: real
  V :: nat
  K :: nat
  D :: nat
  h :: nat
  context_len :: nat
  batchsize :: int
  maxepoch :: int
  eta_t :: real
  gamma_r :: real
  gamma_c :: real
  f :: real
  p_i :: real
  p_f :: real
  T :: int
  p_t :: real
  step :: int
  epoch :: int
  R :: "'a matrix"
  C :: "'a tensor3"
  bw :: "'a matrix"
  M :: "'a matrix"
  J :: "'a matrix"
  bj :: "'a matrix"
  deltaR :: "'a matrix"
  deltaC :: "'a tensor3"
  deltaB :: "'a matrix"
  deltaM :: "'a matrix"
  deltaJ :: "'a matrix"
  deltaBj :: "'a matrix"
  dR :: "'a matrix"
  dM :: "'a matrix"
  db :: "'a list"
  dC :: "'a tensor3"
  dJ :: "'a matrix"
  dBj :: "'a list"

section \<open>\<^verbatim>\<open>__init__\<close>: the initial momentum\<close>

text \<open>
  Line 78: \<^verbatim>\<open>self.p_t = (1 - (1 / T)) * p_i + (1 / T) * p_f\<close>, with \<^verbatim>\<open>1 / T\<close> the floor
  division of two integers.
\<close>

definition init_p_t :: "int \<Rightarrow> real \<Rightarrow> real \<Rightarrow> py_error + real" where
  "init_p_t T0 pi0 pf0 =
     (if T0 = 0 then Inl ZeroDivisionError
      else Inr (of_int (1 - 1 div T0) * pi0 + of_int (1 div T0) * pf0))"

section \<open>numpy operations used by the passes\<close>

text \<open>
  The width of a matrix is read off its first row. numpy raises ValueError when shapes do
  not fit; the functions below are meant for operands whose shapes fit, and the theorems
  state the shapes they rely on. What depends on the values of the data (an index out of
  range, a maximum over no element) is a branch of the model.
\<close>

definition ncols :: "'a matrix \<Rightarrow> nat" where
  "ncols A = (case A of [] \<Rightarrow> 0 | r # _ \<Rightarrow> length r)"

definition col :: "'a matrix \<Rightarrow> nat \<Rightarrow> 'a list" where
  "col A j = map (\<lambda>r. r ! j) A"

definition np_T :: "'a matrix \<Rightarrow> 'a matrix" where
  "np_T A = map (col A) [0..<ncols A]"

definition inner :: "real list \<Rightarrow> real list \<Rightarrow> real" where
  "inner u v = sum_list (map2 (*) u v)"

definition np_dot :: "real matrix \<Rightarrow> real matrix \<Rightarrow> real matrix" where
  "np_dot A B = map (\<lambda>row. map (\<lambda>j. inner row (col B j)) [0..<ncols B]) A"

definition np_sum0 :: "real matrix \<Rightarrow> real list" where
  "np_sum0 A = map (\<lambda>j. sum_list (col A j)) [0..<ncols A]"

definition np_zeros :: "nat \<Rightarrow> nat \<Rightarrow> real matrix" where
  "np_zeros m n = replicate m (replicate n 0)"

definition zeros_like3 :: "real tensor3 \<Rightarrow> real tensor3" where
  "zeros_like3 A = map (map (map (\<lambda>_. 0))) A"

text \<open>\<^verbatim>\<open>A + b\<close> for \<^verbatim>\<open>b\<close> of shape (1, n): the one row of \<^verbatim>\<open>b\<close> is added to every row.\<close>

definition badd :: "real matrix \<Rightarrow> real matrix \<Rightarrow> real matrix" where
  "badd A b = madd_row A (b ! 0)"

text \<open>\<^verbatim>\<open>A * (A > 0)\<close> and \<^verbatim>\<open>A * mask\<close>: a boolean array multiplies as 0 and 1.\<close>

definition gt0 :: "real matrix \<Rightarrow> bool matrix" where
  "gt0 A = map (map (\<lambda>x. x > 0)) A"

definition mul_mask :: "real matrix \<Rightarrow> bool matrix \<Rightarrow> real matrix" where
  "mul_mask A B = map2 (map2 (\<lambda>x b. x * of_bool b)) A B"

text \<open>
  An integer used as an index along an axis of length \<open>n\<close>: numpy counts a negative index
  from the end and raises IndexError outside \<open>[-n, n)\<close>.
\<close>

definition np_index :: "nat \<Rightarrow> int \<Rightarrow> nat option" where
  "np_index n i =
     (if 0 \<le> i \<and> i < int n then Some (nat i)
      else if - int n \<le> i \<and> i < 0 then Some (nat (i + int n))
      else None)"

text \<open>\<^verbatim>\<open>A[:, idx]\<close> for an integer array \<^verbatim>\<open>idx\<close>.\<close>

definition take_cols :: "'a matrix \<Rightarrow> int list \<Rightarrow> py_error + 'a matrix" where
  "take_cols A idx =
     (if \<forall>x \<in> set idx. np_index (ncols A) x \<noteq> None
      then Inr (map (\<lambda>row. map (\<lambda>x. row ! the (np_index (ncols A) x)) idx) A)
      else Inl IndexError)"

text \<open>
  \<^verbatim>\<open>A.flatten(order='F')\<close> lists the columns one after the other;
  \<^verbatim>\<open>v.reshape((m, n))\<close> cuts \<^verbatim>\<open>v\<close> into \<open>m\<close> rows of length \<open>n\<close> and raises ValueError when
  \<^verbatim>\<open>v\<close> has not \<open>m * n\<close> elements; \<^verbatim>\<open>v.reshape((m, n), order='F')\<close> fills column by column.
\<close>

definition flatten_F :: "'a matrix \<Rightarrow> 'a list" where
  "flatten_F A = concat (np_T A)"

definition reshape :: "nat \<Rightarrow> nat \<Rightarrow> 'a list \<Rightarrow> py_error + 'a matrix" where
  "reshape m n v =
     (if length v = m * n then Inr (map (\<lambda>i. take n (drop (i * n) v)) [0..<m])
      else Inl ValueError)"

definition reshape_F :: "nat \<Rightarrow> nat \<Rightarrow> 'a list \<Rightarrow> 'a matrix" where
  "reshape_F m n v = map (\<lambda>k. map (\<lambda>c. v ! (c * m + k)) [0..<n]) [0..<m]"

text \<open>\<^verbatim>\<open>words[:,:,i]\<close>: for each example, column \<open>i\<close> of its K x context matrix.\<close>

definition words_at :: "'a tensor3 \<Rightarrow> nat \<Rightarrow> 'a matrix" where
  "words_at words i = map (\<lambda>w. col w i) words"

text \<open>
  The generator behind \<^verbatim>\<open>np.random.rand\<close> is the process-wide one of numpy, which this
  file never seeds. Its state is the sequence of uniform draws it will produce;
  \<^verbatim>\<open>np.random.rand(m, n)\<close> takes the first \<open>m * n\<close> of them, row by row.
\<close>

type_synonym rng = "nat \<Rightarrow> real"

definition np_random_rand :: "rng \<Rightarrow> nat \<Rightarrow> nat \<Rightarrow> real matrix \<times> rng" where
  "np_random_rand g m n =
     (map (\<lambda>i. map (\<lambda>j. g (i * n + j)) [0..<n]) [0..<m], \<lambda>k. g (k + m * n))"

section \<open>\<^verbatim>\<open>forward\<close>\<close>

text \<open>
  Lines 164-166 on one row: \<^verbatim>\<open>preds.max(1)\<close> raises ValueError on a row without
  elements.
\<close>

definition softmax_row :: "real list \<Rightarrow> py_error + real list" where
  "softmax_row row =
     (if row = [] then Inl ValueError
      else
        let m = Max (set row);
            e = map (\<lambda>x. exp (x - m)) row;
            z = sum_list e
        in Inr (map (\<lambda>x. x / z) e))"

fun softmax :: "real matrix \<Rightarrow> py_error + real matrix" where
  "softmax [] = Inr []"
| "softmax (row # rows) =
     (case softmax_row row of
        Inl e \<Rightarrow> Inl e
      | Inr p \<Rightarrow> (case softmax rows of Inl e \<Rightarrow> Inl e | Inr ps \<Rightarrow> Inr (p # ps)))"

text \<open>Lines 154-157: the loop that adds the context terms to \<^verbatim>\<open>acts\<close>.\<close>

fun context_acts :: "real tensor3 \<Rightarrow> real tensor3 \<Rightarrow> real matrix \<Rightarrow> nat list \<Rightarrow> real matrix" where
  "context_acts words Cs acts [] = acts"
| "context_acts words Cs acts (i # is) =
     context_acts words Cs (madd acts (np_dot (words_at words i) (Cs ! i))) is"

text \<open>
  Lines 133-168 (the argument \<^verbatim>\<open>Im\<close> is spelt \<open>Imf\<close>). The result is the tuple \<^verbatim>\<open>(words, acts, IF, preds)\<close> and the state in
  which the call leaves numpy's generator.
\<close>

definition forward ::
  "real mlbl \<Rightarrow> int matrix \<Rightarrow> real matrix \<Rightarrow> bool \<Rightarrow> rng \<Rightarrow>
   py_error + ((real tensor3 \<times> real matrix \<times> real matrix \<times> real matrix) \<times> rng)" where
  "forward self X Imf test g =
     (let n = length X;
          IF = badd (np_dot Imf (J self)) (bj self);
          IF = mul_mask IF (gt0 IF);
          (IF, g) =
            (if dropout self > 0 \<and> \<not> test then
               (let (u, g') = np_random_rand g n (h self);
                    dropmask = map (map (\<lambda>x. x > dropout self)) u
                in (mul_mask IF dropmask, g'))
             else (IF, g))
      in case take_cols (R self) (concat X) of
           Inl e \<Rightarrow> Inl e
         | Inr cols \<Rightarrow>
           (case reshape n (K self * context_len self) (flatten_F cols) of
              Inl e \<Rightarrow> Inl e
            | Inr tmp \<Rightarrow>
              (let words = map (reshape_F (K self) (context_len self)) tmp;
                   acts = context_acts words (C self) (np_zeros n (K self)) [0..<context_len self];
                   acts =
                     (if test then madd acts (np_dot IF (smul (1 - dropout self) (M self)))
                      else madd acts (np_dot IF (M self)))
               in case softmax (badd (np_dot acts (R self)) (bw self)) of
                    Inl e \<Rightarrow> Inl e
                  | Inr preds \<Rightarrow> Inr ((words, acts, IF, preds), g))))"

section \<open>\<^verbatim>\<open>backward\<close>\<close>

text \<open>\<^verbatim>\<open>A[:, x] += v\<close>: entry \<open>k\<close> of \<open>v\<close> is added to row \<open>k\<close> at column \<open>x\<close>.\<close>

definition add_col :: "real matrix \<Rightarrow> nat \<Rightarrow> real list \<Rightarrow> real matrix" where
  "add_col A x v = map2 (\<lambda>row d. row[x := row ! x + d]) A v"

text \<open>
  Lines 198-199, the loop over the examples \<open>j\<close> of the batch at context position \<open>i\<close>:
  \<^verbatim>\<open>delta.T[:,j]\<close> is row \<open>j\<close> of \<^verbatim>\<open>delta\<close>, and \<^verbatim>\<open>X[j,i]\<close> indexes the columns of \<^verbatim>\<open>dR\<close>.
\<close>

fun scatter_rows ::
  "real matrix \<Rightarrow> int matrix \<Rightarrow> nat \<Rightarrow> real matrix \<Rightarrow> nat list \<Rightarrow> py_error + real matrix" where
  "scatter_rows dRa X i delta [] = Inr dRa"
| "scatter_rows dRa X i delta (j # js) =
     (case np_index (ncols dRa) (X ! j ! i) of
        None \<Rightarrow> Inl IndexError
      | Some x \<Rightarrow> scatter_rows (add_col dRa x (delta ! j)) X i delta js)"

text \<open>Lines 195-199, the loop over the context positions.\<close>

fun context_grads ::
  "real tensor3 \<Rightarrow> real tensor3 \<Rightarrow> real matrix \<Rightarrow> int matrix \<Rightarrow>
   real tensor3 \<times> real matrix \<Rightarrow> nat list \<Rightarrow> py_error + (real tensor3 \<times> real matrix)" where
  "context_grads Cs words Ix X (dCa, dRa) [] = Inr (dCa, dRa)"
| "context_grads Cs words Ix X (dCa, dRa) (i # is) =
     (let dCa = dCa[i := np_dot (np_T (words_at words i)) Ix];
          delta = np_dot Ix (np_T (Cs ! i))
      in case scatter_rows dRa X i delta [0..<length X] of
           Inl e \<Rightarrow> Inl e
         | Inr dRa \<Rightarrow> context_grads Cs words Ix X (dCa, dRa) is)"

text \<open>
  Lines 180-221. \<^verbatim>\<open>Y\<close> is the dense form of the sparse target matrix. The gradients are
  stored on the object; no parameter and no momentum buffer is assigned.
\<close>

definition backward ::
  "real mlbl \<Rightarrow> real matrix \<Rightarrow> real matrix \<Rightarrow> real matrix \<Rightarrow> real matrix \<Rightarrow> real tensor3 \<Rightarrow>
   int matrix \<Rightarrow> real matrix \<Rightarrow> py_error + real mlbl" where
  "backward self Y preds IF acts words X Imf =
     (let n = length preds;
          Ix = sdiv (msub preds Y) (real n);
          dRa = np_dot (np_T acts) Ix;
          dba = np_sum0 Ix;
          Ix = np_dot Ix (np_T (R self))
      in case context_grads (C self) words Ix X (zeros_like3 (C self), dRa) [0..<context_len self] of
           Inl e \<Rightarrow> Inl e
         | Inr (dCa, dRa) \<Rightarrow>
           (let dMa = np_dot (np_T IF) Ix;
                Ix = mul_mask (np_dot Ix (np_T (M self))) (gt0 IF);
                dJa = np_dot (np_T Imf) Ix;
                dBja = np_sum0 Ix;
                dRa = madd dRa (smul (gamma_r self) (R self));
                dCa = add3 dCa (smul3 (gamma_c self) (C self));
                dMa = madd dMa (smul (gamma_c self) (M self));
                dJa = madd dJa (smul (gamma_c self) (J self))
            in Inr (self\<lparr>dR := dRa, dM := dMa, db := dba, dC := dCa, dJ := dJa, dBj := dBja\<rparr>)))"

section \<open>\<^verbatim>\<open>update_params\<close>\<close>

text \<open>
  Lines 223-246. \<^verbatim>\<open>batchsize = X.shape[0]\<close> is the number of rows of the minibatch;
  \<^verbatim>\<open>self.eta_t / batchsize\<close> divides a Python float by an integer and raises
  ZeroDivisionError for a minibatch without rows, before anything is assigned.
  The six buffers are assigned first, in the source's order, then the six parameters are
  incremented.
\<close>

definition update_params :: "real mlbl \<Rightarrow> int matrix \<Rightarrow> py_error + real mlbl" where
  "update_params self X =
     (let n = length X in
      if n = 0 then Inl ZeroDivisionError
      else
        let c = (1 - p_t self) * (eta_t self / real n);
            self = self\<lparr>deltaC := sub3 (smul3 (p_t self) (deltaC self)) (smul3 c (dC self))\<rparr>;
            self = self\<lparr>deltaR := msub (smul (p_t self) (deltaR self)) (smul c (dR self))\<rparr>;
            self = self\<lparr>deltaB := msub_row (smul (p_t self) (deltaB self)) (vsmul c (db self))\<rparr>;
            self = self\<lparr>deltaM := msub (smul (p_t self) (deltaM self)) (smul c (dM self))\<rparr>;
            self = self\<lparr>deltaJ := msub (smul (p_t self) (deltaJ self)) (smul c (dJ self))\<rparr>;
            self = self\<lparr>deltaBj := msub_row (smul (p_t self) (deltaBj self)) (vsmul c (dBj self))\<rparr>;
            self = self\<lparr>C := add3 (C self) (deltaC self)\<rparr>;
            self = self\<lparr>R := madd (R self) (deltaR self)\<rparr>;
            self = self\<lparr>bw := madd (bw self) (deltaB self)\<rparr>;
            self = self\<lparr>M := madd (M self) (deltaM self)\<rparr>;
            self = self\<lparr>J := madd (J self) (deltaJ self)\<rparr>;
            self = self\<lparr>bj := madd (bj self) (deltaBj self)\<rparr>
        in Inr self)"

section \<open>\<^verbatim>\<open>update_hyperparams\<close>\<close>

text \<open>
  Lines 248-257. \<^verbatim>\<open>self.step\<close> and \<^verbatim>\<open>self.T\<close> are Python integers, so
  \<^verbatim>\<open>(self.step + 1) / self.T\<close> is floor division (\<open>div\<close> on \<open>int\<close> rounds towards
  minus infinity, as Python does), and raises ZeroDivisionError when \<^verbatim>\<open>T\<close> is 0.
\<close>

definition update_hyperparams :: "'a mlbl \<Rightarrow> py_error + 'a mlbl" where
  "update_hyperparams self =
     (let self = self\<lparr>eta_t := eta_t self * f self\<rparr> in
      if step self < T self then
        (if T self = 0 then Inl ZeroDivisionError
         else Inr (self\<lparr>p_t := of_int (1 - (step self + 1) div T self) * p_i self
                                + of_int ((step self + 1) div T self) * p_f self\<rparr>))
      else Inr (self\<lparr>p_t := p_f self\<rparr>))"

section \<open>\<^verbatim>\<open>train\<close>\<close>

text \<open>
  A floating-point number as the divergence test of the loop sees it: finite, an infinity,
  or not a number. \<^verbatim>\<open>np.isnan\<close> is true of NaN only.
\<close>

datatype float_val = Finite real | PosInf | NegInf | NaN

fun np_isnan :: "float_val \<Rightarrow> bool" where
  "np_isnan NaN = True"
| "np_isnan _ = False"

fun np_isfinite :: "float_val \<Rightarrow> bool" where
  "np_isfinite (Finite _) = True"
| "np_isfinite _ = False"

text \<open>\<^verbatim>\<open>np.sum(np.isnan(acts))\<close>: the number of entries that are NaN.\<close>

definition nan_count :: "('a \<Rightarrow> bool) \<Rightarrow> 'a matrix \<Rightarrow> nat" where
  "nan_count isnan acts = length (filter isnan (concat acts))"

text \<open>
  \<^verbatim>\<open>np.mod\<close> on integers has the sign of the divisor and is 0 for the divisor 0.
\<close>

definition np_mod :: "int \<Rightarrow> int \<Rightarrow> int" where
  "np_mod a b = (if b = 0 then 0 else a mod b)"

text \<open>
  \<^verbatim>\<open>xs[m::n]\<close> for \<open>m \<ge> 0\<close>: the elements at \<open>m\<close>, \<open>m + n\<close>, \<open>m + 2 n\<close>, ...; a step of 0
  raises ValueError. \<open>stride_from n k xs\<close> skips \<open>k\<close> elements, takes one, and then again
  every \<open>n\<close>-th.
\<close>

fun stride_from :: "nat \<Rightarrow> nat \<Rightarrow> 'a list \<Rightarrow> 'a list" where
  "stride_from n k [] = []"
| "stride_from n k (x # xs) =
     (if k = 0 then x # stride_from n (n - 1) xs else stride_from n (k - 1) xs)"

definition py_slice :: "'a list \<Rightarrow> nat \<Rightarrow> nat \<Rightarrow> py_error + 'a list" where
  "py_slice xs m n = (if n = 0 then Inl ValueError else Inr (stride_from n m xs))"

text \<open>
  \<^verbatim>\<open>A[idx]\<close> for an integer array \<^verbatim>\<open>idx\<close>: the rows of \<^verbatim>\<open>A\<close> at these indices.
\<close>

definition take_rows :: "'a list \<Rightarrow> int list \<Rightarrow> py_error + 'a list" where
  "take_rows A idx =
     (if \<forall>x \<in> set idx. np_index (length A) x \<noteq> None
      then Inr (map (\<lambda>x. A ! the (np_index (length A) x)) idx)
      else Inl IndexError)"

text \<open>
  The local variables of \<^verbatim>\<open>train\<close> together with the object, the state of numpy's
  process-wide generator, and the models handed to \<^verbatim>\<open>lm_tools.save_model\<close> so far.
\<close>

record 'a train_state =
  tr_self :: "'a mlbl"
  tr_inds :: "nat list"
  tr_bleu :: "real list"
  tr_best :: real
  tr_count :: nat
  tr_done :: bool
  tr_saved :: "'a mlbl list"
  tr_rng :: rng

text \<open>
  What the loop calls. The three passes are methods of the object, applied to the rows of
  the training data that a minibatch selects; they are parameters of the loop here, given
  below for the methods of this file. \<^verbatim>\<open>init_params\<close>, \<^verbatim>\<open>RandomState(seed).shuffle\<close> and
  \<^verbatim>\<open>lm_tools.compute_bleu\<close> draw from numpy's generators or live outside the file. The
  thresholds \<^verbatim>\<open>prog['_update']\<close> and \<^verbatim>\<open>prog['_bleu']\<close> are integers; \<^verbatim>\<open>prog['_details']\<close>
  and \<^verbatim>\<open>prog['_samples']\<close> only print.
\<close>

type_synonym 'a fwd = "'a tensor3 \<times> 'a matrix \<times> 'a matrix \<times> 'a matrix"

record 'a ops =
  init_params_op :: "'a mlbl \<Rightarrow> 'a mlbl"
  shuffle_op :: "int \<Rightarrow> nat list \<Rightarrow> nat list"
  forward_op :: "'a mlbl \<Rightarrow> nat list \<Rightarrow> rng \<Rightarrow> py_error + ('a fwd \<times> rng)"
  backward_op :: "'a mlbl \<Rightarrow> nat list \<Rightarrow> 'a fwd \<Rightarrow> py_error + 'a mlbl"
  update_params_op :: "'a mlbl \<Rightarrow> nat list \<Rightarrow> py_error + 'a mlbl"
  isnan_op :: "'a \<Rightarrow> bool"
  compute_bleu :: "'a mlbl \<Rightarrow> real list"
  prog_update :: int
  prog_bleu :: int

definition acts_of :: "'a fwd \<Rightarrow> 'a matrix" where
  "acts_of fw = fst (snd fw)"

text \<open>Lines 317-318 and 336-337: \<^verbatim>\<open>self.update_hyperparams(); self.step += 1\<close>.\<close>

definition hyper_step :: "'a train_state \<Rightarrow> py_error + 'a train_state" where
  "hyper_step st =
     (case update_hyperparams (tr_self st) of
        Inl e \<Rightarrow> Inl e
      | Inr s \<Rightarrow> Inr (st\<lparr>tr_self := s\<lparr>step := step s + 1\<rparr>\<rparr>))"

text \<open>Line 280: \<^verbatim>\<open>patience = 10\<close>, a local constant of \<^verbatim>\<open>train\<close>.\<close>

definition patience :: nat where
  "patience = 10"

text \<open>
  Lines 323-334, the validation. The second component tells whether the \<^verbatim>\<open>break\<close> of
  line 334 is taken. \<^verbatim>\<open>bleu[-1]\<close> raises IndexError on an empty sequence.
\<close>

definition validate :: "'a ops \<Rightarrow> 'a train_state \<Rightarrow> py_error + ('a train_state \<times> bool)" where
  "validate ops st =
     (let st = st\<lparr>tr_bleu := compute_bleu ops (tr_self st)\<rparr> in
      if tr_bleu st = [] then Inl IndexError
      else if last (tr_bleu st) \<ge> tr_best st then
        Inr (st\<lparr>tr_count := 0, tr_best := last (tr_bleu st),
                tr_saved := tr_saved st @ [tr_self st]\<rparr>, False)
      else
        (let st = st\<lparr>tr_count := tr_count st + 1\<rparr> in
         if tr_count st = patience then Inr (st\<lparr>tr_done := True\<rparr>, True)
         else Inr (st, False)))"

text \<open>
  Lines 294-334, one pass through the body of the minibatch loop; the second component
  tells whether the loop is left by \<^verbatim>\<open>break\<close>. The test of line 303 reads the \<^verbatim>\<open>acts\<close>
  that \<^verbatim>\<open>forward\<close> returned, after \<^verbatim>\<open>update_params\<close> has run.
\<close>

definition minibatch_body ::
  "'a ops \<Rightarrow> nat \<Rightarrow> 'a train_state \<Rightarrow> nat \<Rightarrow> py_error + ('a train_state \<times> bool)" where
  "minibatch_body ops numbatches st minibatch =
     (case py_slice (tr_inds st) minibatch numbatches of
        Inl e \<Rightarrow> Inl e
      | Inr batch \<Rightarrow>
     (case forward_op ops (tr_self st) batch (tr_rng st) of
        Inl e \<Rightarrow> Inl e
      | Inr (fw, g) \<Rightarrow>
     (case backward_op ops (tr_self st) batch fw of
        Inl e \<Rightarrow> Inl e
      | Inr s1 \<Rightarrow>
     (case update_params_op ops s1 batch of
        Inl e \<Rightarrow> Inl e
      | Inr s2 \<Rightarrow>
        (let st = st\<lparr>tr_self := s2, tr_rng := g\<rparr> in
         if nan_count (isnan_op ops) (acts_of fw) > 0 then Inr (st\<lparr>tr_done := True\<rparr>, True)
         else
           (let pts = int minibatch * batchsize (tr_self st) in
            case (if np_mod pts (prog_update ops) = 0 \<and> minibatch > 0 then hyper_step st
                  else Inr st) of
              Inl e \<Rightarrow> Inl e
            | Inr st \<Rightarrow>
                if np_mod pts (prog_bleu ops) = 0 \<and> minibatch > 0 then validate ops st
                else Inr (st, False)))))))"

text \<open>Line 292: the loop over \<^verbatim>\<open>range(numbatches)\<close>, left early by \<^verbatim>\<open>break\<close>.\<close>

fun minibatch_loop ::
  "'a ops \<Rightarrow> nat \<Rightarrow> 'a train_state \<Rightarrow> nat list \<Rightarrow> py_error + 'a train_state" where
  "minibatch_loop ops numbatches st [] = Inr st"
| "minibatch_loop ops numbatches st (m # ms) =
     (case minibatch_body ops numbatches st m of
        Inl e \<Rightarrow> Inl e
      | Inr (st, brk) \<Rightarrow> if brk then Inr st else minibatch_loop ops numbatches st ms)"

text \<open>
  Lines 286-337: the loop over the epochs. After the minibatch loop, however it was
  left, lines 336-337 step the schedules once more.
\<close>

fun epoch_loop ::
  "'a ops \<Rightarrow> int \<Rightarrow> 'a train_state \<Rightarrow> int list \<Rightarrow> py_error + 'a train_state" where
  "epoch_loop ops numbatches st [] = Inr st"
| "epoch_loop ops numbatches st (e # es) =
     (if tr_done st then Inr st
      else
        (let st = st\<lparr>tr_self := (tr_self st)\<lparr>epoch := e\<rparr>\<rparr>;
             st = st\<lparr>tr_inds := shuffle_op ops (seed (tr_self st) + e + 1) (tr_inds st)\<rparr>
         in case minibatch_loop ops (nat numbatches) st [0..<nat numbatches] of
              Inl err \<Rightarrow> Inl err
            | Inr st \<Rightarrow>
                (case hyper_step st of
                   Inl err \<Rightarrow> Inl err
                 | Inr st \<Rightarrow> epoch_loop ops numbatches st es)))"

text \<open>
  Lines 267-338. \<open>n\<close> is \<^verbatim>\<open>len(X)\<close>, the number of training examples, and \<open>g\<close> the state of
  numpy's process-wide generator when \<^verbatim>\<open>train\<close> is called. \<open>train_init\<close> is the state
  before the main loop (lines 272-282). \<^verbatim>\<open>len(inds) / self.batchsize\<close> is the floor
  division of two integers. The result is the value returned, \<^verbatim>\<open>best\<close>, with the final
  state.
\<close>

definition train_init :: "'a ops \<Rightarrow> 'a mlbl \<Rightarrow> nat \<Rightarrow> rng \<Rightarrow> 'a train_state" where
  "train_init ops self n g =
     \<lparr>tr_self = (init_params_op ops self)\<lparr>step := 0\<rparr>, tr_inds = [0..<n],
      tr_bleu = replicate 4 0, tr_best = 0, tr_count = 0, tr_done = False, tr_saved = [],
      tr_rng = g\<rparr>"

definition train :: "'a ops \<Rightarrow> 'a mlbl \<Rightarrow> nat \<Rightarrow> rng \<Rightarrow> py_error + (real \<times> 'a train_state)" where
  "train ops self n g =
     (let st = train_init ops self n g in
      if batchsize (tr_self st) = 0 then Inl ZeroDivisionError
      else
        (let numbatches = int (length (tr_inds st)) div batchsize (tr_self st)
         in case epoch_loop ops numbatches st (map int [0..<nat (maxepoch (tr_self st))]) of
              Inl e \<Rightarrow> Inl e
            | Inr st \<Rightarrow> Inr (tr_best st, st)))"

text \<open>
  What is still to run when the minibatch loop of an epoch stands before the minibatches
  \<open>ms\<close>, with the epochs \<open>es\<close> to follow: the rest of that loop, lines 336-337, and the
  remaining epochs.
\<close>

definition rest_of_training ::
  "'a ops \<Rightarrow> int \<Rightarrow> 'a train_state \<Rightarrow> nat list \<Rightarrow> int list \<Rightarrow> py_error + 'a train_state" where
  "rest_of_training ops numbatches st ms es =
     (case minibatch_loop ops (nat numbatches) st ms of
        Inl err \<Rightarrow> Inl err
      | Inr st \<Rightarrow>
          (case hyper_step st of
             Inl err \<Rightarrow> Inl err
           | Inr st \<Rightarrow> epoch_loop ops numbatches st es))"

text \<open>
  The slices that the minibatch loop of one epoch takes from the shuffled indices, for
  \<^verbatim>\<open>minibatch\<close> in \<^verbatim>\<open>range(numbatches)\<close>.
\<close>

definition epoch_batches :: "'a list \<Rightarrow> int \<Rightarrow> 'a list list" where
  "epoch_batches inds numbatches =
     map (\<lambda>m. stride_from (nat numbatches) m inds) [0..<nat numbatches]"

text \<open>
  The loop's parameters for the methods of this file, on the training data \<^verbatim>\<open>X\<close>,
  \<^verbatim>\<open>XY\<close> (dense), \<^verbatim>\<open>indX\<close> and \<^verbatim>\<open>IM\<close> (lines 294-302): the image of example \<open>i\<close> is row
  \<^verbatim>\<open>floor(indX[i] / 5)\<close> of \<^verbatim>\<open>IM\<close>. A real is never NaN.
\<close>

definition batch_rows ::
  "int matrix \<Rightarrow> real matrix \<Rightarrow> int list \<Rightarrow> real matrix \<Rightarrow> nat list \<Rightarrow>
   py_error + (int matrix \<times> real matrix \<times> real matrix)" where
  "batch_rows X XY indX IM batch =
     (case take_rows X (map int batch) of
        Inl e \<Rightarrow> Inl e
      | Inr batchX \<Rightarrow>
     (case take_rows XY (map int batch) of
        Inl e \<Rightarrow> Inl e
      | Inr batchY \<Rightarrow>
     (case take_rows indX (map int batch) of
        Inl e \<Rightarrow> Inl e
      | Inr batchindX \<Rightarrow>
     (case take_rows IM (map (\<lambda>i. i div 5) batchindX) of
        Inl e \<Rightarrow> Inl e
      | Inr batchIm \<Rightarrow> Inr (batchX, batchY, batchIm)))))"

definition mlbl_ops ::
  "int matrix \<Rightarrow> real matrix \<Rightarrow> int list \<Rightarrow> real matrix \<Rightarrow>
   (real mlbl \<Rightarrow> real mlbl) \<Rightarrow> (int \<Rightarrow> nat list \<Rightarrow> nat list) \<Rightarrow> (real mlbl \<Rightarrow> real list) \<Rightarrow>
   int \<Rightarrow> int \<Rightarrow> real ops" where
  "mlbl_ops X XY indX IM init shuffle bleu upd_every bleu_every =
     \<lparr>init_params_op = init,
      shuffle_op = shuffle,
      forward_op = (\<lambda>self batch g.
        case batch_rows X XY indX IM batch of
          Inl e \<Rightarrow> Inl e
        | Inr (batchX, batchY, batchIm) \<Rightarrow> forward self batchX batchIm False g),
      backward_op = (\<lambda>self batch (words, acts, IF, preds).
        case batch_rows X XY indX IM batch of
          Inl e \<Rightarrow> Inl e
        | Inr (batchX, batchY, batchIm) \<Rightarrow>
            backward self batchY preds IF acts words batchX batchIm),
      update_params_op = (\<lambda>self batch.
        case batch_rows X XY indX IM batch of
          Inl e \<Rightarrow> Inl e
        | Inr (batchX, batchY, batchIm) \<Rightarrow> update_params self batchX),
      isnan_op = (\<lambda>_. False),
      compute_bleu = bleu,
      prog_update = upd_every,
      prog_bleu = bleu_every\<rparr>"

section \<open>Shapes and a small model\<close>

text \<open>
  Every momentum buffer and every gradient has the shape of its parameter; the
  one-dimensional gradients of the biases have the length of the bias rows. This is what
  \<^verbatim>\<open>init_params\<close> and \<^verbatim>\<open>backward\<close> establish.
\<close>

definition buffers_fit :: "'a mlbl \<Rightarrow> bool" where
  "buffers_fit s \<longleftrightarrow>
     dims (deltaR s) = dims (R s) \<and> dims (dR s) = dims (R s) \<and>
     dims3 (deltaC s) = dims3 (C s) \<and> dims3 (dC s) = dims3 (C s) \<and>
     dims (deltaB s) = dims (bw s) \<and> (\<forall>r \<in> set (bw s). length r = length (db s)) \<and>
     dims (deltaM s) = dims (M s) \<and> dims (dM s) = dims (M s) \<and>
     dims (deltaJ s) = dims (J s) \<and> dims (dJ s) = dims (J s) \<and>
     dims (deltaBj s) = dims (bj s) \<and> (\<forall>r \<in> set (bj s). length r = length (dBj s))"

text \<open>
  The shapes that \<^verbatim>\<open>init_params\<close> gives the parameters, for positive sizes, and a
  minibatch that fits them: \<open>X\<close> holds \<^verbatim>\<open>context\<close> word indices in \<open>[0, V)\<close> per example, and
  the image features have \<open>D\<close> columns.
\<close>

definition is_matrix :: "nat \<Rightarrow> nat \<Rightarrow> 'a matrix \<Rightarrow> bool" where
  "is_matrix m n A \<longleftrightarrow> length A = m \<and> (\<forall>r \<in> set A. length r = n)"

definition shapes_ok :: "'a mlbl \<Rightarrow> bool" where
  "shapes_ok s \<longleftrightarrow>
     0 < V s \<and> 0 < K s \<and> 0 < D s \<and> 0 < h s \<and> 0 < context_len s \<and>
     is_matrix (K s) (V s) (R s) \<and>
     length (C s) = context_len s \<and> (\<forall>c \<in> set (C s). is_matrix (K s) (K s) c) \<and>
     is_matrix 1 (V s) (bw s) \<and> is_matrix (h s) (K s) (M s) \<and>
     is_matrix (D s) (h s) (J s) \<and> is_matrix 1 (h s) (bj s)"

definition batch_ok :: "'a mlbl \<Rightarrow> int matrix \<Rightarrow> 'b matrix \<Rightarrow> bool" where
  "batch_ok s X Imf \<longleftrightarrow>
     is_matrix (length X) (context_len s) X \<and>
     (\<forall>r \<in> set X. \<forall>x \<in> set r. 0 \<le> x \<and> x < int (V s)) \<and>
     is_matrix (length X) (D s) Imf"

text \<open>
  A model with a vocabulary of two words, one embedding dimension, one image feature, one
  hidden unit and a context of one word, with the default schedule constants and dropout
  one half; \<open>z\<close> and \<open>u\<close> are the zero and the one of the element type.
\<close>

definition tiny_with :: "'a \<Rightarrow> 'a \<Rightarrow> 'a mlbl" where
  "tiny_with z u =
     \<lparr>seed = 1234, dropout = 1/2, V = 2, K = 1, D = 1, h = 1, context_len = 1,
      batchsize = 1, maxepoch = 1, eta_t = 1/5, gamma_r = 0, gamma_c = 0, f = 199/200,
      p_i = 1/2, p_f = 1/2, T = 20, p_t = 1/2, step = 0, epoch = 0,
      R = [[u, z]], C = [[[z]]], bw = [[z, u]], M = [[u]], J = [[u]], bj = [[z]],
      deltaR = [[z, z]], deltaC = [[[z]]], deltaB = [[z, z]], deltaM = [[z]], deltaJ = [[z]],
      deltaBj = [[z]],
      dR = [[z, z]], dM = [[z]], db = [z, z], dC = [[[z]]], dJ = [[z]], dBj = [z]\<rparr>"

definition tiny :: "real mlbl" where
  "tiny = tiny_with 0 1"

definition tiny_float :: "float_val mlbl" where
  "tiny_float = tiny_with (Finite 0) (Finite 1)"

text \<open>
  Parameters of the loop whose passes leave the object as it is, with a forward pass that
  returns the hidden activation \<open>acts\<close> and an evaluator that returns the scores \<open>bleu\<close>;
  validation is due at every minibatch but the first.
\<close>

definition const_ops :: "float_val matrix \<Rightarrow> real list \<Rightarrow> float_val ops" where
  "const_ops acts bleu =
     \<lparr>init_params_op = (\<lambda>self. self),
      shuffle_op = (\<lambda>sd inds. inds),
      forward_op = (\<lambda>self batch g. Inr (([], acts, [], []), g)),
      backward_op = (\<lambda>self batch fw. Inr self),
      update_params_op = (\<lambda>self batch. Inr self),
      isnan_op = np_isnan,
      compute_bleu = (\<lambda>self. bleu),
      prog_update = 1000,
      prog_bleu = 1\<rparr>"
section \<open>Entries of elementwise operations\<close>

lemma dims_eq_length: "dims A = dims B \<Longrightarrow> length A = length B"
  unfolding dims_def by (metis length_map)

lemma dims_eq_row: "dims A = dims B \<Longrightarrow> i < length A \<Longrightarrow> length (A ! i) = length (B ! i)"
  unfolding dims_def by (metis length_map nth_map)

lemma dims3_eq_length: "dims3 A = dims3 B \<Longrightarrow> length A = length B"
  unfolding dims3_def by (metis length_map)

lemma dims3_eq_dims: "dims3 A = dims3 B \<Longrightarrow> i < length A \<Longrightarrow> dims (A ! i) = dims (B ! i)"
  unfolding dims3_def by (metis length_map nth_map)

lemma nth_vsmul: "i < length v \<Longrightarrow> vsmul c v ! i = c * v ! i"
  by (simp add: vsmul_def)

lemma nth_vsub: "i < length u \<Longrightarrow> i < length v \<Longrightarrow> vsub u v ! i = u ! i - v ! i"
  by (simp add: vsub_def)

lemma nth_vadd: "i < length u \<Longrightarrow> i < length v \<Longrightarrow> vadd u v ! i = u ! i + v ! i"
  by (simp add: vadd_def)

lemma length_vsmul [simp]: "length (vsmul c v) = length v"
  by (simp add: vsmul_def)

lemma length_vsub [simp]: "length (vsub u v) = min (length u) (length v)"
  by (simp add: vsub_def)

lemma length_vadd [simp]: "length (vadd u v) = min (length u) (length v)"
  by (simp add: vadd_def)

lemma length_smul [simp]: "length (smul c A) = length A"
  by (simp add: smul_def)

lemma length_msub [simp]: "length (msub A B) = min (length A) (length B)"
  by (simp add: msub_def)

lemma length_madd [simp]: "length (madd A B) = min (length A) (length B)"
  by (simp add: madd_def)

lemma dims_smul [simp]: "dims (smul c A) = dims A"
  by (simp add: dims_def smul_def)


lemma nth_smul: "i < length A \<Longrightarrow> smul c A ! i = vsmul c (A ! i)"
  by (simp add: smul_def)

lemma nth_msub: "i < length A \<Longrightarrow> i < length B \<Longrightarrow> msub A B ! i = vsub (A ! i) (B ! i)"
  by (simp add: msub_def)

lemma nth_madd: "i < length A \<Longrightarrow> i < length B \<Longrightarrow> madd A B ! i = vadd (A ! i) (B ! i)"
  by (simp add: madd_def)

lemma dims_msub: assumes "dims A = dims B" shows "dims (msub A B) = dims A"
proof -
  have len: "length A = length B" using assms by (rule dims_eq_length)
  have "map length (msub A B) = map length A"
  proof (rule nth_equalityI)
    show "length (map length (msub A B)) = length (map length A)" using len by simp
  next
    fix i assume "i < length (map length (msub A B))"
    then have i: "i < length A" "i < length B" using len by simp_all
    then show "map length (msub A B) ! i = map length A ! i"
      using dims_eq_row [OF assms i(1)] by (simp add: nth_msub)
  qed
  then show ?thesis by (simp add: dims_def)
qed

lemma dims_madd: assumes "dims A = dims B" shows "dims (madd A B) = dims A"
proof -
  have len: "length A = length B" using assms by (rule dims_eq_length)
  have "map length (madd A B) = map length A"
  proof (rule nth_equalityI)
    show "length (map length (madd A B)) = length (map length A)" using len by simp
  next
    fix i assume "i < length (map length (madd A B))"
    then have i: "i < length A" "i < length B" using len by simp_all
    then show "map length (madd A B) ! i = map length A ! i"
      using dims_eq_row [OF assms i(1)] by (simp add: nth_madd)
  qed
  then show ?thesis by (simp add: dims_def)
qed

text \<open>One momentum step on a matrix, entry by entry.\<close>

lemma momentum_entry:
  assumes "dims B = dims A" "dims G = dims A" "i < length A" "j < length (A ! i)"
  shows "msub (smul p B) (smul c G) ! i ! j = p * B ! i ! j - c * G ! i ! j"
proof -
  have "length B = length A" "length G = length A"
    using assms(1,2) by (auto dest: dims_eq_length)
  moreover have "length (B ! i) = length (A ! i)" "length (G ! i) = length (A ! i)"
    using assms dims_eq_row[of B A i] dims_eq_row[of G A i] calculation by auto
  ultimately show ?thesis using assms(3,4)
    by (simp add: nth_msub nth_smul nth_vsub nth_vsmul)
qed

lemma dims_momentum:
  assumes "dims B = dims A" "dims G = dims A"
  shows "dims (msub (smul p B) (smul c G)) = dims A"
  using assms by (simp add: dims_msub)

lemma add_entry:
  assumes "dims B = dims A" "i < length A" "j < length (A ! i)"
  shows "madd A B ! i ! j = A ! i ! j + B ! i ! j"
proof -
  have "length B = length A" using assms(1) by (auto dest: dims_eq_length)
  moreover have "length (B ! i) = length (A ! i)"
    using assms dims_eq_row[of B A i] calculation by auto
  ultimately show ?thesis using assms(2,3) by (simp add: nth_madd nth_vadd)
qed

text \<open>The same for a matrix against a one-dimensional gradient (the biases).\<close>

lemma momentum_entry_row:
  assumes "dims B = dims A" "\<forall>r \<in> set A. length r = length v" "i < length A" "j < length (A ! i)"
  shows "msub_row (smul p B) (vsmul c v) ! i ! j = p * B ! i ! j - c * v ! j"
proof -
  have lb: "length B = length A" using assms(1) by (auto dest: dims_eq_length)
  have "length (B ! i) = length (A ! i)"
    using assms dims_eq_row[of B A i] lb by auto
  moreover have "length (A ! i) = length v" using assms(2,3) by simp
  ultimately show ?thesis using assms(3,4) lb
    by (simp add: msub_row_def nth_smul nth_vsub nth_vsmul)
qed

lemma dims_momentum_row:
  assumes "dims B = dims A" "\<forall>r \<in> set A. length r = length v"
  shows "dims (msub_row (smul p B) (vsmul c v)) = dims A"
proof -
  have lb: "length B = length A" using assms(1) by (auto dest: dims_eq_length)
  have "map length (msub_row (smul p B) (vsmul c v)) = map length A"
  proof (rule nth_equalityI)
    show "length (map length (msub_row (smul p B) (vsmul c v))) = length (map length A)"
      using lb by (simp add: msub_row_def)
  next
    fix i assume "i < length (map length (msub_row (smul p B) (vsmul c v)))"
    then have i: "i < length A" "i < length B" using lb by (simp_all add: msub_row_def)
    have "length (B ! i) = length (A ! i)" using dims_eq_row[OF assms(1) i(2)] by simp
    moreover have "length (A ! i) = length v" using assms(2) i(1) by simp
    ultimately show "map length (msub_row (smul p B) (vsmul c v)) ! i = map length A ! i"
      using i by (simp add: msub_row_def nth_smul)
  qed
  then show ?thesis by (simp add: dims_def)
qed

text \<open>The same for the three-dimensional context tensor.\<close>

lemma nth_smul3: "l < length A \<Longrightarrow> smul3 c A ! l = smul c (A ! l)"
  by (simp add: smul3_def)

lemma nth_sub3: "l < length A \<Longrightarrow> l < length B \<Longrightarrow> sub3 A B ! l = msub (A ! l) (B ! l)"
  by (simp add: sub3_def)

lemma nth_add3: "l < length A \<Longrightarrow> l < length B \<Longrightarrow> add3 A B ! l = madd (A ! l) (B ! l)"
  by (simp add: add3_def)

lemma momentum_entry3:
  assumes "dims3 B = dims3 A" "dims3 G = dims3 A"
    "l < length A" "i < length (A ! l)" "j < length (A ! l ! i)"
  shows "sub3 (smul3 p B) (smul3 c G) ! l ! i ! j = p * B ! l ! i ! j - c * G ! l ! i ! j"
proof -
  have len: "length B = length A" "length G = length A"
    using assms(1,2) by (auto dest: dims3_eq_length)
  have d: "dims (B ! l) = dims (A ! l)" "dims (G ! l) = dims (A ! l)"
    using dims3_eq_dims[OF assms(1)] dims3_eq_dims[OF assms(2)] len assms(3) by auto
  show ?thesis
    using len assms(3) momentum_entry[OF d assms(4,5)]
    by (simp add: nth_sub3 nth_smul3 smul3_def)
qed

lemma dims3_momentum:
  assumes "dims3 B = dims3 A" "dims3 G = dims3 A"
  shows "dims3 (sub3 (smul3 p B) (smul3 c G)) = dims3 A"
proof -
  have len: "length B = length A" "length G = length A"
    using assms(1,2) by (auto dest: dims3_eq_length)
  have "map dims (sub3 (smul3 p B) (smul3 c G)) = map dims A"
  proof (rule nth_equalityI)
    show "length (map dims (sub3 (smul3 p B) (smul3 c G))) = length (map dims A)"
      using len by (simp add: sub3_def smul3_def)
  next
    fix l assume "l < length (map dims (sub3 (smul3 p B) (smul3 c G)))"
    then have l: "l < length A" using len by (simp add: sub3_def smul3_def)
    have d: "dims (B ! l) = dims (A ! l)" "dims (G ! l) = dims (A ! l)"
      using dims3_eq_dims[OF assms(1)] dims3_eq_dims[OF assms(2)] len l by auto
    show "map dims (sub3 (smul3 p B) (smul3 c G)) ! l = map dims A ! l"
      using l len dims_momentum[OF d] by (simp add: sub3_def smul3_def)
  qed
  then show ?thesis by (simp add: dims3_def)
qed

lemma add_entry3:
  assumes "dims3 B = dims3 A" "l < length A" "i < length (A ! l)" "j < length (A ! l ! i)"
  shows "add3 A B ! l ! i ! j = A ! l ! i ! j + B ! l ! i ! j"
proof -
  have len: "length B = length A" using assms(1) by (auto dest: dims3_eq_length)
  have d: "dims (B ! l) = dims (A ! l)"
    using dims3_eq_dims[OF assms(1)] len assms(2) by auto
  show ?thesis using len assms(2) add_entry[OF d assms(3,4)] by (simp add: nth_add3)
qed



lemma length_add3 [simp]: "length (add3 A B) = min (length A) (length B)"
  by (simp add: add3_def)

lemma dims3_add3: assumes "dims3 A = dims3 B" shows "dims3 (add3 A B) = dims3 A"
proof -
  have len: "length A = length B" using assms by (rule dims3_eq_length)
  have "map dims (add3 A B) = map dims A"
  proof (rule nth_equalityI)
    show "length (map dims (add3 A B)) = length (map dims A)" using len by simp
  next
    fix l assume "l < length (map dims (add3 A B))"
    then have l: "l < length A" "l < length B" using len by simp_all
    have "dims (madd (A ! l) (B ! l)) = dims (A ! l)"
      using dims3_eq_dims[OF assms l(1)] by (rule dims_madd)
    then show "map dims (add3 A B) ! l = map dims A ! l"
      using l by (simp add: nth_add3)
  qed
  then show ?thesis by (simp add: dims3_def)
qed

text \<open>A buffer update followed by the parameter increment, for each kind of array.\<close>

lemma momentum_step:
  assumes "dims B = dims A" "dims G = dims A"
    and "B' = msub (smul p B) (smul c G)" "A' = madd A B'"
  shows "\<forall>i j. i < length A \<longrightarrow> j < length (A ! i) \<longrightarrow>
           B' ! i ! j = p * B ! i ! j - c * G ! i ! j \<and> A' ! i ! j = A ! i ! j + B' ! i ! j"
    and "dims B' = dims A" and "dims A' = dims A"
proof -
  show b: "dims B' = dims A" unfolding assms(3) by (rule dims_momentum[OF assms(1,2)])
  show "dims A' = dims A" unfolding assms(4) using b by (simp add: dims_madd)
  show "\<forall>i j. i < length A \<longrightarrow> j < length (A ! i) \<longrightarrow>
           B' ! i ! j = p * B ! i ! j - c * G ! i ! j \<and> A' ! i ! j = A ! i ! j + B' ! i ! j"
    using add_entry[OF b] momentum_entry[OF assms(1,2)] unfolding assms(4)
    by (simp add: assms(3))
qed

lemma momentum_step_row:
  assumes "dims B = dims A" "\<forall>r \<in> set A. length r = length v"
    and "B' = msub_row (smul p B) (vsmul c v)" "A' = madd A B'"
  shows "\<forall>i j. i < length A \<longrightarrow> j < length (A ! i) \<longrightarrow>
           B' ! i ! j = p * B ! i ! j - c * v ! j \<and> A' ! i ! j = A ! i ! j + B' ! i ! j"
    and "dims B' = dims A" and "dims A' = dims A"
proof -
  show b: "dims B' = dims A" unfolding assms(3) by (rule dims_momentum_row[OF assms(1,2)])
  show "dims A' = dims A" unfolding assms(4) using b by (simp add: dims_madd)
  show "\<forall>i j. i < length A \<longrightarrow> j < length (A ! i) \<longrightarrow>
           B' ! i ! j = p * B ! i ! j - c * v ! j \<and> A' ! i ! j = A ! i ! j + B' ! i ! j"
    using add_entry[OF b] momentum_entry_row[OF assms(1,2)] unfolding assms(4)
    by (simp add: assms(3))
qed

lemma momentum_step3:
  assumes "dims3 B = dims3 A" "dims3 G = dims3 A"
    and "B' = sub3 (smul3 p B) (smul3 c G)" "A' = add3 A B'"
  shows "\<forall>l i j. l < length A \<longrightarrow> i < length (A ! l) \<longrightarrow> j < length (A ! l ! i) \<longrightarrow>
           B' ! l ! i ! j = p * B ! l ! i ! j - c * G ! l ! i ! j \<and>
           A' ! l ! i ! j = A ! l ! i ! j + B' ! l ! i ! j"
    and "dims3 B' = dims3 A" and "dims3 A' = dims3 A"
proof -
  show b: "dims3 B' = dims3 A" unfolding assms(3) by (rule dims3_momentum[OF assms(1,2)])
  show "dims3 A' = dims3 A" unfolding assms(4) using b by (simp add: dims3_add3)
  show "\<forall>l i j. l < length A \<longrightarrow> i < length (A ! l) \<longrightarrow> j < length (A ! l ! i) \<longrightarrow>
           B' ! l ! i ! j = p * B ! l ! i ! j - c * G ! l ! i ! j \<and>
           A' ! l ! i ! j = A ! l ! i ! j + B' ! l ! i ! j"
    using add_entry3[OF b] momentum_entry3[OF assms(1,2)] unfolding assms(4)
    by (simp add: assms(3))
qed

lemma rows_length_dims:
  assumes "\<forall>r \<in> set A. length r = n" "dims A' = dims A"
  shows "\<forall>r \<in> set A'. length r = n"
proof
  fix r assume "r \<in> set A'"
  then obtain i where i: "i < length A'" "r = A' ! i" by (auto simp: in_set_conv_nth)
  have "length A' = length A" using assms(2) by (rule dims_eq_length)
  then have "length (A ! i) = n" using assms(1) i(1) by simp
  then show "length r = n" using dims_eq_row[OF assms(2) i(1)] i(2) by simp
qed

section \<open>The momentum step\<close>

lemma update_params_eq:
  "X \<noteq> [] \<Longrightarrow> update_params s X =
     Inr (s\<lparr>deltaC := sub3 (smul3 (p_t s) (deltaC s)) (smul3 ((1 - p_t s) * (eta_t s / real (length X))) (dC s)),
            deltaR := msub (smul (p_t s) (deltaR s)) (smul ((1 - p_t s) * (eta_t s / real (length X))) (dR s)),
            deltaB := msub_row (smul (p_t s) (deltaB s)) (vsmul ((1 - p_t s) * (eta_t s / real (length X))) (db s)),
            deltaM := msub (smul (p_t s) (deltaM s)) (smul ((1 - p_t s) * (eta_t s / real (length X))) (dM s)),
            deltaJ := msub (smul (p_t s) (deltaJ s)) (smul ((1 - p_t s) * (eta_t s / real (length X))) (dJ s)),
            deltaBj := msub_row (smul (p_t s) (deltaBj s)) (vsmul ((1 - p_t s) * (eta_t s / real (length X))) (dBj s)),
            C := add3 (C s) (sub3 (smul3 (p_t s) (deltaC s)) (smul3 ((1 - p_t s) * (eta_t s / real (length X))) (dC s))),
            R := madd (R s) (msub (smul (p_t s) (deltaR s)) (smul ((1 - p_t s) * (eta_t s / real (length X))) (dR s))),
            bw := madd (bw s) (msub_row (smul (p_t s) (deltaB s)) (vsmul ((1 - p_t s) * (eta_t s / real (length X))) (db s))),
            M := madd (M s) (msub (smul (p_t s) (deltaM s)) (smul ((1 - p_t s) * (eta_t s / real (length X))) (dM s))),
            J := madd (J s) (msub (smul (p_t s) (deltaJ s)) (smul ((1 - p_t s) * (eta_t s / real (length X))) (dJ s))),
            bj := madd (bj s) (msub_row (smul (p_t s) (deltaBj s)) (vsmul ((1 - p_t s) * (eta_t s / real (length X))) (dBj s)))\<rparr>)"
  by (simp add: update_params_def Let_def)

lemma tiny_fit: "buffers_fit tiny"
  by (simp add: buffers_fit_def tiny_def tiny_with_def dims_def dims3_def)

lemma backward_keeps_buffers:
  assumes "backward s Y preds IF acts words X Imf = Inr s'"
  shows "deltaR s' = deltaR s \<and> deltaC s' = deltaC s \<and> deltaB s' = deltaB s \<and>
         deltaM s' = deltaM s \<and> deltaJ s' = deltaJ s \<and> deltaBj s' = deltaBj s"
  using assms by (auto simp: backward_def Let_def split: sum.splits prod.splits)

lemma update_hyperparams_keeps_buffers:
  assumes "update_hyperparams s = Inr s'"
  shows "deltaR s' = deltaR s \<and> deltaC s' = deltaC s \<and> deltaB s' = deltaB s \<and>
         deltaM s' = deltaM s \<and> deltaJ s' = deltaJ s \<and> deltaBj s' = deltaBj s"
  using assms by (auto simp: update_hyperparams_def Let_def split: if_splits)

lemma update_params_steps:
  assumes "X \<noteq> []" and "buffers_fit s"
  shows "\<exists>s'. update_params s X = Inr s' \<and>
    (\<forall>i j. i < length (R s) \<longrightarrow> j < length (R s ! i) \<longrightarrow>
       deltaR s' ! i ! j = p_t s * deltaR s ! i ! j
          - (1 - p_t s) * (eta_t s / real (length X)) * dR s ! i ! j \<and>
       R s' ! i ! j = R s ! i ! j + deltaR s' ! i ! j) \<and>
    (\<forall>l i j. l < length (C s) \<longrightarrow> i < length (C s ! l) \<longrightarrow> j < length (C s ! l ! i) \<longrightarrow>
       deltaC s' ! l ! i ! j = p_t s * deltaC s ! l ! i ! j
          - (1 - p_t s) * (eta_t s / real (length X)) * dC s ! l ! i ! j \<and>
       C s' ! l ! i ! j = C s ! l ! i ! j + deltaC s' ! l ! i ! j) \<and>
    (\<forall>i j. i < length (bw s) \<longrightarrow> j < length (bw s ! i) \<longrightarrow>
       deltaB s' ! i ! j = p_t s * deltaB s ! i ! j
          - (1 - p_t s) * (eta_t s / real (length X)) * db s ! j \<and>
       bw s' ! i ! j = bw s ! i ! j + deltaB s' ! i ! j) \<and>
    (\<forall>i j. i < length (M s) \<longrightarrow> j < length (M s ! i) \<longrightarrow>
       deltaM s' ! i ! j = p_t s * deltaM s ! i ! j
          - (1 - p_t s) * (eta_t s / real (length X)) * dM s ! i ! j \<and>
       M s' ! i ! j = M s ! i ! j + deltaM s' ! i ! j) \<and>
    (\<forall>i j. i < length (J s) \<longrightarrow> j < length (J s ! i) \<longrightarrow>
       deltaJ s' ! i ! j = p_t s * deltaJ s ! i ! j
          - (1 - p_t s) * (eta_t s / real (length X)) * dJ s ! i ! j \<and>
       J s' ! i ! j = J s ! i ! j + deltaJ s' ! i ! j) \<and>
    (\<forall>i j. i < length (bj s) \<longrightarrow> j < length (bj s ! i) \<longrightarrow>
       deltaBj s' ! i ! j = p_t s * deltaBj s ! i ! j
          - (1 - p_t s) * (eta_t s / real (length X)) * dBj s ! j \<and>
       bj s' ! i ! j = bj s ! i ! j + deltaBj s' ! i ! j) \<and>
    dims (R s') = dims (R s) \<and> dims3 (C s') = dims3 (C s) \<and> dims (bw s') = dims (bw s) \<and>
    dims (M s') = dims (M s) \<and> dims (J s') = dims (J s) \<and> dims (bj s') = dims (bj s) \<and>
    buffers_fit s' \<and>
    (\<forall>Y preds IF acts words X' Imf s''.
       backward s' Y preds IF acts words X' Imf = Inr s'' \<longrightarrow>
       deltaR s'' = deltaR s' \<and> deltaC s'' = deltaC s' \<and> deltaB s'' = deltaB s' \<and>
       deltaM s'' = deltaM s' \<and> deltaJ s'' = deltaJ s' \<and> deltaBj s'' = deltaBj s') \<and>
    (\<forall>s''. update_hyperparams s' = Inr s'' \<longrightarrow>
       deltaR s'' = deltaR s' \<and> deltaC s'' = deltaC s' \<and> deltaB s'' = deltaB s' \<and>
       deltaM s'' = deltaM s' \<and> deltaJ s'' = deltaJ s' \<and> deltaBj s'' = deltaBj s')"
proof -
  define c where "c = (1 - p_t s) * (eta_t s / real (length X))"
  obtain s' where s': "update_params s X = Inr s'"
    using update_params_eq[OF assms(1)] by blast
  note eq = update_params_eq[OF assms(1), of s, folded c_def, unfolded s', simplified]
  have fR: "dims (deltaR s) = dims (R s)" "dims (dR s) = dims (R s)"
    and fC: "dims3 (deltaC s) = dims3 (C s)" "dims3 (dC s) = dims3 (C s)"
    and fB: "dims (deltaB s) = dims (bw s)" "\<forall>r \<in> set (bw s). length r = length (db s)"
    and fM: "dims (deltaM s) = dims (M s)" "dims (dM s) = dims (M s)"
    and fJ: "dims (deltaJ s) = dims (J s)" "dims (dJ s) = dims (J s)"
    and fBj: "dims (deltaBj s) = dims (bj s)" "\<forall>r \<in> set (bj s). length r = length (dBj s)"
    using assms(2) by (simp_all add: buffers_fit_def)
  have dR': "deltaR s' = msub (smul (p_t s) (deltaR s)) (smul c (dR s))"
    and R': "R s' = madd (R s) (deltaR s')"
    and dC': "deltaC s' = sub3 (smul3 (p_t s) (deltaC s)) (smul3 c (dC s))"
    and C': "C s' = add3 (C s) (deltaC s')"
    and dB': "deltaB s' = msub_row (smul (p_t s) (deltaB s)) (vsmul c (db s))"
    and bw': "bw s' = madd (bw s) (deltaB s')"
    and dM': "deltaM s' = msub (smul (p_t s) (deltaM s)) (smul c (dM s))"
    and M': "M s' = madd (M s) (deltaM s')"
    and dJ': "deltaJ s' = msub (smul (p_t s) (deltaJ s)) (smul c (dJ s))"
    and J': "J s' = madd (J s) (deltaJ s')"
    and dBj': "deltaBj s' = msub_row (smul (p_t s) (deltaBj s)) (vsmul c (dBj s))"
    and bj': "bj s' = madd (bj s) (deltaBj s')"
    and grads: "dR s' = dR s" "dC s' = dC s" "db s' = db s" "dM s' = dM s" "dJ s' = dJ s"
      "dBj s' = dBj s"
    by (simp_all add: eq)
  note stR = momentum_step[OF fR dR' R']
  note stC = momentum_step3[OF fC dC' C']
  note stB = momentum_step_row[OF fB dB' bw']
  note stM = momentum_step[OF fM dM' M']
  note stJ = momentum_step[OF fJ dJ' J']
  note stBj = momentum_step_row[OF fBj dBj' bj']
  have rows: "\<forall>r \<in> set (bw s'). length r = length (db s')"
    "\<forall>r \<in> set (bj s'). length r = length (dBj s')"
    unfolding grads
    using rows_length_dims[OF fB(2) stB(3)] rows_length_dims[OF fBj(2) stBj(3)] by simp_all
  have fit: "buffers_fit s'"
    unfolding buffers_fit_def grads
    using stR(2,3) stC(2,3) stB(2,3) stM(2,3) stJ(2,3) stBj(2,3) fR fC fM fJ rows
    unfolding grads by simp
  show ?thesis
    using s' stR stC stB stM stJ stBj fit
      backward_keeps_buffers[of s'] update_hyperparams_keeps_buffers[of s']
    unfolding c_def by blast
qed

section \<open>Claims on the parameter update\<close>



text \<open>
  C4, as stated, fails: with a learning rate of 0 the gradient term vanishes, but the
  decayed buffer is still added to the parameter. Here \<open>eta_t = 0\<close>, the buffer of \<open>M\<close> holds
  1 and \<open>p_t = 1/2\<close>: \<open>M\<close> moves from 1 to 3/2.
\<close>

theorem zero_rate_moves_parameter:
  "eta_t (tiny\<lparr>eta_t := 0, deltaM := [[1]]\<rparr>) = 0 \<and>
   M (tiny\<lparr>eta_t := 0, deltaM := [[1]]\<rparr>) = [[1]] \<and>
   map_sum id M (update_params (tiny\<lparr>eta_t := 0, deltaM := [[1]]\<rparr>) [[0]]) = Inr [[3/2]]"
  by (simp add: update_params_def tiny_def tiny_with_def Let_def madd_def msub_def smul_def vadd_def vsub_def
      vsmul_def)

lemma tiny0_fit: "buffers_fit (tiny\<lparr>eta_t := 0, deltaM := [[1]]\<rparr>)"
  by (simp add: buffers_fit_def tiny_def tiny_with_def dims_def dims3_def)

text \<open>
  C4, amended. With \<open>eta_t = 0\<close>, on a minibatch with at least one row, every entry of
  every momentum buffer becomes \<open>p_t\<close> times its previous value, and every entry of every
  parameter moves by exactly that decayed buffer entry: it is unchanged where the buffer
  entry (or \<open>p_t\<close>) is zero, whatever the gradients are.
\<close>

theorem update_params_zero_rate:
  assumes "X \<noteq> []" and "buffers_fit s" and "eta_t s = 0"
  shows "\<exists>s'. update_params s X = Inr s' \<and>
    (\<forall>i j. i < length (R s) \<longrightarrow> j < length (R s ! i) \<longrightarrow>
       deltaR s' ! i ! j = p_t s * deltaR s ! i ! j \<and>
       R s' ! i ! j = R s ! i ! j + p_t s * deltaR s ! i ! j) \<and>
    (\<forall>l i j. l < length (C s) \<longrightarrow> i < length (C s ! l) \<longrightarrow> j < length (C s ! l ! i) \<longrightarrow>
       deltaC s' ! l ! i ! j = p_t s * deltaC s ! l ! i ! j \<and>
       C s' ! l ! i ! j = C s ! l ! i ! j + p_t s * deltaC s ! l ! i ! j) \<and>
    (\<forall>i j. i < length (bw s) \<longrightarrow> j < length (bw s ! i) \<longrightarrow>
       deltaB s' ! i ! j = p_t s * deltaB s ! i ! j \<and>
       bw s' ! i ! j = bw s ! i ! j + p_t s * deltaB s ! i ! j) \<and>
    (\<forall>i j. i < length (M s) \<longrightarrow> j < length (M s ! i) \<longrightarrow>
       deltaM s' ! i ! j = p_t s * deltaM s ! i ! j \<and>
       M s' ! i ! j = M s ! i ! j + p_t s * deltaM s ! i ! j) \<and>
    (\<forall>i j. i < length (J s) \<longrightarrow> j < length (J s ! i) \<longrightarrow>
       deltaJ s' ! i ! j = p_t s * deltaJ s ! i ! j \<and>
       J s' ! i ! j = J s ! i ! j + p_t s * deltaJ s ! i ! j) \<and>
    (\<forall>i j. i < length (bj s) \<longrightarrow> j < length (bj s ! i) \<longrightarrow>
       deltaBj s' ! i ! j = p_t s * deltaBj s ! i ! j \<and>
       bj s' ! i ! j = bj s ! i ! j + p_t s * deltaBj s ! i ! j)"
proof -
  from update_params_steps[OF assms(1,2)] obtain s' where
    s': "update_params s X = Inr s'" and
    r: "\<forall>i j. i < length (R s) \<longrightarrow> j < length (R s ! i) \<longrightarrow>
       deltaR s' ! i ! j = p_t s * deltaR s ! i ! j
          - (1 - p_t s) * (eta_t s / real (length X)) * dR s ! i ! j \<and>
       R s' ! i ! j = R s ! i ! j + deltaR s' ! i ! j" and
    c: "\<forall>l i j. l < length (C s) \<longrightarrow> i < length (C s ! l) \<longrightarrow> j < length (C s ! l ! i) \<longrightarrow>
       deltaC s' ! l ! i ! j = p_t s * deltaC s ! l ! i ! j
          - (1 - p_t s) * (eta_t s / real (length X)) * dC s ! l ! i ! j \<and>
       C s' ! l ! i ! j = C s ! l ! i ! j + deltaC s' ! l ! i ! j" and
    b: "\<forall>i j. i < length (bw s) \<longrightarrow> j < length (bw s ! i) \<longrightarrow>
       deltaB s' ! i ! j = p_t s * deltaB s ! i ! j
          - (1 - p_t s) * (eta_t s / real (length X)) * db s ! j \<and>
       bw s' ! i ! j = bw s ! i ! j + deltaB s' ! i ! j" and
    m: "\<forall>i j. i < length (M s) \<longrightarrow> j < length (M s ! i) \<longrightarrow>
       deltaM s' ! i ! j = p_t s * deltaM s ! i ! j
          - (1 - p_t s) * (eta_t s / real (length X)) * dM s ! i ! j \<and>
       M s' ! i ! j = M s ! i ! j + deltaM s' ! i ! j" and
    j: "\<forall>i j. i < length (J s) \<longrightarrow> j < length (J s ! i) \<longrightarrow>
       deltaJ s' ! i ! j = p_t s * deltaJ s ! i ! j
          - (1 - p_t s) * (eta_t s / real (length X)) * dJ s ! i ! j \<and>
       J s' ! i ! j = J s ! i ! j + deltaJ s' ! i ! j" and
    bj: "\<forall>i j. i < length (bj s) \<longrightarrow> j < length (bj s ! i) \<longrightarrow>
       deltaBj s' ! i ! j = p_t s * deltaBj s ! i ! j
          - (1 - p_t s) * (eta_t s / real (length X)) * dBj s ! j \<and>
       bj s' ! i ! j = bj s ! i ! j + deltaBj s' ! i ! j"
    by (elim exE conjE) (erule (6) that)
  have r0: "\<forall>i j. i < length (R s) \<longrightarrow> j < length (R s ! i) \<longrightarrow>
       deltaR s' ! i ! j = p_t s * deltaR s ! i ! j \<and>
       R s' ! i ! j = R s ! i ! j + p_t s * deltaR s ! i ! j"
    using r by (simp add: assms(3))
  have c0: "\<forall>l i j. l < length (C s) \<longrightarrow> i < length (C s ! l) \<longrightarrow> j < length (C s ! l ! i) \<longrightarrow>
       deltaC s' ! l ! i ! j = p_t s * deltaC s ! l ! i ! j \<and>
       C s' ! l ! i ! j = C s ! l ! i ! j + p_t s * deltaC s ! l ! i ! j"
    using c by (simp add: assms(3))
  have b0: "\<forall>i j. i < length (bw s) \<longrightarrow> j < length (bw s ! i) \<longrightarrow>
       deltaB s' ! i ! j = p_t s * deltaB s ! i ! j \<and>
       bw s' ! i ! j = bw s ! i ! j + p_t s * deltaB s ! i ! j"
    using b by (simp add: assms(3))
  have m0: "\<forall>i j. i < length (M s) \<longrightarrow> j < length (M s ! i) \<longrightarrow>
       deltaM s' ! i ! j = p_t s * deltaM s ! i ! j \<and>
       M s' ! i ! j = M s ! i ! j + p_t s * deltaM s ! i ! j"
    using m by (simp add: assms(3))
  have j0: "\<forall>i j. i < length (J s) \<longrightarrow> j < length (J s ! i) \<longrightarrow>
       deltaJ s' ! i ! j = p_t s * deltaJ s ! i ! j \<and>
       J s' ! i ! j = J s ! i ! j + p_t s * deltaJ s ! i ! j"
    using j by (simp add: assms(3))
  have bj0: "\<forall>i j. i < length (bj s) \<longrightarrow> j < length (bj s ! i) \<longrightarrow>
       deltaBj s' ! i ! j = p_t s * deltaBj s ! i ! j \<and>
       bj s' ! i ! j = bj s ! i ! j + p_t s * deltaBj s ! i ! j"
    using bj by (simp add: assms(3))
  from s' r0 c0 b0 m0 j0 bj0 show ?thesis by (intro exI[of _ s'] conjI)
qed

theorem update_params_zero_rate_witness:
  "[[0::int]] \<noteq> [] \<and> buffers_fit (tiny\<lparr>eta_t := 0, deltaM := [[1]]\<rparr>) \<and>
   eta_t (tiny\<lparr>eta_t := 0, deltaM := [[1]]\<rparr>) = 0 \<and>
   (\<exists>s'. update_params (tiny\<lparr>eta_t := 0, deltaM := [[1]]\<rparr>) [[0]] = Inr s' \<and>
      deltaM s' ! 0 ! 0 = 1/2 \<and> M s' ! 0 ! 0 = 3/2)"
proof -
  let ?s = "tiny\<lparr>eta_t := 0, deltaM := [[1]]\<rparr>"
  have ne: "[[0::int]] \<noteq> []" by simp
  have e0: "eta_t ?s = 0" by simp
  from update_params_zero_rate[OF ne tiny0_fit e0] obtain s' where
    s': "update_params ?s [[0]] = Inr s'" and
    m: "\<forall>i j. i < length (M ?s) \<longrightarrow> j < length (M ?s ! i) \<longrightarrow>
       deltaM s' ! i ! j = p_t ?s * deltaM ?s ! i ! j \<and>
       M s' ! i ! j = M ?s ! i ! j + p_t ?s * deltaM ?s ! i ! j"
    by (elim exE conjE) (erule (1) that)
  have "0 < length (M ?s)" "0 < length (M ?s ! 0)" by (simp_all add: tiny_def tiny_with_def)
  with m have "deltaM s' ! 0 ! 0 = p_t ?s * deltaM ?s ! 0 ! 0 \<and>
       M s' ! 0 ! 0 = M ?s ! 0 ! 0 + p_t ?s * deltaM ?s ! 0 ! 0" by blast
  then have "deltaM s' ! 0 ! 0 = 1/2 \<and> M s' ! 0 ! 0 = 3/2" by (simp add: tiny_def tiny_with_def)
  with s' ne tiny0_fit e0 show ?thesis by blast
qed

section \<open>Claims on the schedule\<close>

text \<open>
  C5. The momentum is not annealed linearly: \<^verbatim>\<open>(self.step + 1) / self.T\<close> divides two
  integers, so it is 0 until \<open>step + 1\<close> reaches \<open>T\<close>. With \<open>p_i = 1/2\<close>, \<open>p_f = 9/10\<close>,
  \<open>T = 20\<close> and the step counter at 9, \<^verbatim>\<open>update_hyperparams\<close> leaves \<open>p_t\<close> at 1/2; linear
  annealing gives 17/25 at \<open>step / T\<close> and 7/10 at \<open>(step + 1) / T\<close>. The momentum jumps to
  \<open>p_f\<close> at step 19, and \<^verbatim>\<open>__init__\<close> starts it at \<open>p_i\<close>.
\<close>

theorem update_hyperparams_step_function:
  "map_sum id p_t (update_hyperparams (tiny\<lparr>p_i := 1/2, p_f := 9/10, T := 20, step := 9\<rparr>))
     = Inr (1/2) \<and>
   map_sum id p_t (update_hyperparams (tiny\<lparr>p_i := 1/2, p_f := 9/10, T := 20, step := 19\<rparr>))
     = Inr (9/10) \<and>
   init_p_t 20 (1/2) (9/10) = Inr (1/2) \<and>
   (1 - 9/20) * (1/2) + (9/20) * (9/10) = (17/25 :: real) \<and>
   (1 - 10/20) * (1/2) + (10/20) * (9/10) = (7/10 :: real)"
  by (simp add: update_hyperparams_def init_p_t_def tiny_def tiny_with_def)
section \<open>Striped slices\<close>

lemma length_stride_from:
  "0 < n \<Longrightarrow> k < n \<Longrightarrow> length (stride_from n k xs) = (length xs + n - 1 - k) div n"
proof (induction xs arbitrary: k)
  case Nil
  then show ?case by simp
next
  case (Cons x xs)
  show ?case
  proof (cases "k = 0")
    case True
    have "length (stride_from n (n - 1) xs) = (length xs + n - 1 - (n - 1)) div n"
      using Cons.IH[of "n - 1"] Cons.prems by simp
    moreover have "(length xs + n - 1 - (n - 1)) = length xs" using Cons.prems by simp
    moreover have "(length (x # xs) + n - 1 - 0) div n = Suc (length xs div n)"
      using Cons.prems by simp
    ultimately show ?thesis using True by simp
  next
    case False
    then have "length (stride_from n (k - 1) xs) = (length xs + n - 1 - (k - 1)) div n"
      using Cons.IH[of "k - 1"] Cons.prems by simp
    moreover have "length xs + n - 1 - (k - 1) = length (x # xs) + n - 1 - k"
      using False Cons.prems by simp
    ultimately show ?thesis using False by simp
  qed
qed

lemma nth_stride_from:
  "0 < n \<Longrightarrow> k < n \<Longrightarrow> i < length (stride_from n k xs) \<Longrightarrow>
   stride_from n k xs ! i = xs ! (k + i * n)"
proof (induction xs arbitrary: k i)
  case Nil
  then show ?case by simp
next
  case (Cons x xs)
  show ?case
  proof (cases "k = 0")
    case True
    then have eq: "stride_from n k (x # xs) = x # stride_from n (n - 1) xs" by simp
    show ?thesis
    proof (cases i)
      case 0
      then show ?thesis unfolding eq using True by simp
    next
      case (Suc i')
      then have "i' < length (stride_from n (n - 1) xs)" using Cons.prems(3) unfolding eq by simp
      moreover have "n - 1 < n" using Cons.prems(1) by simp
      ultimately have "stride_from n (n - 1) xs ! i' = xs ! (n - 1 + i' * n)"
        using Cons.IH[of "n - 1" i'] Cons.prems(1) by blast
      moreover have "k + i * n = Suc (n - 1 + i' * n)" using Cons.prems(1) True Suc by simp
      ultimately show ?thesis unfolding eq Suc by (simp only: nth_Cons_Suc Suc)
    qed
  next
    case False
    then have eq: "stride_from n k (x # xs) = stride_from n (k - 1) xs" by simp
    have "i < length (stride_from n (k - 1) xs)" using Cons.prems(3) unfolding eq .
    moreover have "k - 1 < n" using Cons.prems(2) by simp
    ultimately have "stride_from n (k - 1) xs ! i = xs ! (k - 1 + i * n)"
      using Cons.IH[of "k - 1" i] Cons.prems(1) by blast
    moreover have "k + i * n = Suc (k - 1 + i * n)" using False by simp
    ultimately show ?thesis unfolding eq by (simp only: nth_Cons_Suc)
  qed
qed

lemma stride_from_positions:
  assumes "0 < n" "k < n"
  shows "stride_from n k xs = map (\<lambda>i. xs ! (k + i * n)) [0..<(length xs + n - 1 - k) div n]"
  by (rule nth_equalityI)
    (simp_all add: length_stride_from[OF assms] nth_stride_from[OF assms])

lemma mset_stride_family:
  "0 < n \<Longrightarrow> (\<Sum>k<n. mset (stride_from n k xs)) = mset xs"
proof (induction xs)
  case Nil
  then show ?case by simp
next
  case (Cons x xs)
  obtain n' where n: "n = Suc n'" using Cons.prems by (cases n) auto
  let ?g = "\<lambda>k. mset (stride_from n k (x # xs))"
  let ?h = "\<lambda>k. mset (stride_from n k xs)"
  have g0: "?g 0 = {#x#} + ?h n'" by (simp add: n)
  have gS: "\<And>k. ?g (Suc k) = ?h k" by simp
  have "(\<Sum>k<Suc n'. ?g k) = ?g 0 + (\<Sum>k<n'. ?g (Suc k))"
    by (rule sum.lessThan_Suc_shift)
  also have "\<dots> = {#x#} + ?h n' + (\<Sum>k<n'. ?h k)"
    unfolding g0 gS ..
  also have "\<dots> = {#x#} + (\<Sum>k<Suc n'. ?h k)"
    by (simp only: sum.lessThan_Suc add.assoc add.commute[of "?h n'"])
  finally have "(\<Sum>k<n. ?g k) = {#x#} + (\<Sum>k<n. ?h k)" unfolding n .
  then show ?case using Cons.IH[OF Cons.prems] by simp
qed

lemma mset_epoch_batches:
  assumes "0 < nb"
  shows "mset (concat (epoch_batches sh nb)) = mset sh"
proof -
  have "mset (concat (epoch_batches sh nb))
      = sum_list (map (\<lambda>m. mset (stride_from (nat nb) m sh)) [0..<nat nb])"
    by (simp add: epoch_batches_def mset_concat comp_def)
  also have "\<dots> = (\<Sum>m<nat nb. mset (stride_from (nat nb) m sh))"
    by (simp add: interv_sum_list_conv_sum_set_nat atLeast0LessThan)
  finally show ?thesis using mset_stride_family[of "nat nb" sh] assms by simp
qed

lemma nth_epoch_batches:
  "m < nat nb \<Longrightarrow> epoch_batches sh nb ! m = stride_from (nat nb) m sh"
  by (simp add: epoch_batches_def)

section \<open>Claims on the minibatches of an epoch\<close>





section \<open>Leaving the loops\<close>

lemma nan_count_pos_iff:
  "0 < nan_count isnan acts \<longleftrightarrow> (\<exists>row \<in> set acts. \<exists>x \<in> set row. isnan x)"
  by (auto simp: nan_count_def filter_empty_conv)

lemma hyper_step_keeps:
  assumes "hyper_step st = Inr st'"
  shows "tr_done st' = tr_done st \<and> tr_best st' = tr_best st \<and> tr_count st' = tr_count st \<and>
         tr_saved st' = tr_saved st \<and> tr_inds st' = tr_inds st \<and> tr_bleu st' = tr_bleu st \<and>
         tr_rng st' = tr_rng st"
  using assms by (auto simp: hyper_step_def split: sum.splits)

lemma epoch_loop_done: "tr_done st \<Longrightarrow> epoch_loop ops nb st es = Inr st"
  by (cases es) simp_all

lemma validate_break_done:
  "validate ops st = Inr (st', True) \<Longrightarrow> tr_done st'"
  by (auto simp: validate_def Let_def split: if_splits)

lemma minibatch_body_break_done:
  assumes "minibatch_body ops n st m = Inr (st', True)"
  shows "tr_done st'"
  using assms
  by (auto simp: minibatch_body_def Let_def split: sum.splits prod.splits if_splits
      dest: validate_break_done)

lemma rest_after_break:
  assumes "minibatch_body ops (nat nb) st m = Inr (st', True)"
  shows "rest_of_training ops nb st (m # ms) es = hyper_step st'"
proof -
  have d: "tr_done st'" using assms by (rule minibatch_body_break_done)
  have "rest_of_training ops nb st (m # ms) es =
      (case hyper_step st' of Inl err \<Rightarrow> Inl err | Inr st'' \<Rightarrow> epoch_loop ops nb st'' es)"
    using assms by (simp add: rest_of_training_def)
  also have "\<dots> = hyper_step st'"
    using d by (auto split: sum.splits dest: hyper_step_keeps simp: epoch_loop_done)
  finally show ?thesis .
qed

lemma rest_after_continue:
  assumes "minibatch_body ops (nat nb) st m = Inr (st', False)"
  shows "rest_of_training ops nb st (m # ms) es = rest_of_training ops nb st' ms es"
  using assms by (simp add: rest_of_training_def)

lemma epoch_loop_rest:
  "epoch_loop ops nb st (e # es) =
     (if tr_done st then Inr st
      else rest_of_training ops nb
             (st\<lparr>tr_self := (tr_self st)\<lparr>epoch := e\<rparr>,
                 tr_inds := shuffle_op ops (seed (tr_self st) + e + 1) (tr_inds st)\<rparr>)
             [0..<nat nb] es)"
  by (simp add: rest_of_training_def Let_def)

section \<open>Claims on the training loop\<close>

text \<open>
  C3, as stated, fails for the infinities: line 303 tests \<^verbatim>\<open>np.isnan\<close>, which is false of
  \<open>\<plusminus>Inf\<close>. When the forward pass of minibatch 0 returns the hidden activation \<open>+Inf\<close>, the
  body of the loop ends without \<^verbatim>\<open>break\<close> and without setting \<^verbatim>\<open>done\<close>; training goes
  on to minibatch 1, whose validation writes a checkpoint. With NaN in its place training
  stops before any validation.
\<close>

theorem infinity_does_not_stop:
  "\<not> np_isfinite PosInf \<and>
   minibatch_body (const_ops [[PosInf]] [0]) 2
       (train_init (const_ops [[PosInf]] [0]) tiny_float 2 (\<lambda>k. 0)) 0
     = Inr (train_init (const_ops [[PosInf]] [0]) tiny_float 2 (\<lambda>k. 0), False) \<and>
   \<not> tr_done (train_init (const_ops [[PosInf]] [0]) tiny_float 2 (\<lambda>k. 0)) \<and>
   map_sum id (\<lambda>r. length (tr_saved (snd r)))
     (train (const_ops [[PosInf]] [0]) tiny_float 2 (\<lambda>k. 0)) = Inr 1 \<and>
   map_sum id (\<lambda>r. length (tr_saved (snd r)))
     (train (const_ops [[NaN]] [0]) tiny_float 2 (\<lambda>k. 0)) = Inr 0"
  by (simp add: minibatch_body_def train_def train_init_def const_ops_def tiny_float_def
      tiny_with_def py_slice_def nan_count_def acts_of_def np_mod_def Let_def validate_def
      hyper_step_def update_hyperparams_def numeral_2_eq_2 upt_rec[of 0])

text \<open>
  C3, amended. If the three passes of a minibatch return and the hidden activation that
  its forward pass computed contains a NaN, then, with the parameter update of that
  minibatch applied, the body sets \<^verbatim>\<open>done\<close> and breaks: whatever minibatches \<open>ms\<close> and
  epochs \<open>es\<close> were still to come, all that is left of the training is the one schedule
  step of lines 336-337. No further minibatch is run and no validation takes place, so
  \<^verbatim>\<open>best\<close>, which \<^verbatim>\<open>train\<close> returns, is the best score recorded before.
\<close>

theorem nan_stops_training:
  assumes "py_slice (tr_inds st) m (nat nb) = Inr batch"
    and "forward_op ops (tr_self st) batch (tr_rng st) = Inr (fw, g)"
    and "backward_op ops (tr_self st) batch fw = Inr s1"
    and "update_params_op ops s1 batch = Inr s2"
    and "\<exists>row \<in> set (acts_of fw). \<exists>x \<in> set row. isnan_op ops x"
  shows "minibatch_body ops (nat nb) st m
       = Inr (st\<lparr>tr_self := s2, tr_rng := g, tr_done := True\<rparr>, True) \<and>
     rest_of_training ops nb st (m # ms) es
       = hyper_step (st\<lparr>tr_self := s2, tr_rng := g, tr_done := True\<rparr>) \<and>
     (\<forall>st'. rest_of_training ops nb st (m # ms) es = Inr st' \<longrightarrow>
        tr_done st' \<and> tr_best st' = tr_best st \<and> tr_count st' = tr_count st \<and>
        tr_saved st' = tr_saved st \<and> tr_bleu st' = tr_bleu st)"
proof -
  have nan: "0 < nan_count (isnan_op ops) (acts_of fw)"
    using assms(5) by (simp add: nan_count_pos_iff)
  have body: "minibatch_body ops (nat nb) st m
       = Inr (st\<lparr>tr_self := s2, tr_rng := g, tr_done := True\<rparr>, True)"
    using assms(1-4) nan by (simp add: minibatch_body_def Let_def)
  have rest: "rest_of_training ops nb st (m # ms) es
       = hyper_step (st\<lparr>tr_self := s2, tr_rng := g, tr_done := True\<rparr>)"
    using body by (rule rest_after_break)
  have "\<forall>st'. rest_of_training ops nb st (m # ms) es = Inr st' \<longrightarrow>
        tr_done st' \<and> tr_best st' = tr_best st \<and> tr_count st' = tr_count st \<and>
        tr_saved st' = tr_saved st \<and> tr_bleu st' = tr_bleu st"
    unfolding rest by (auto dest: hyper_step_keeps)
  with body rest show ?thesis by blast
qed

theorem nan_stops_training_witness:
  "py_slice (tr_inds (train_init (const_ops [[NaN]] [0]) tiny_float 2 (\<lambda>k. 0))) 0 (nat 2)
     = Inr [0] \<and>
   (\<exists>row \<in> set (acts_of ([], [[NaN]], [], [])). \<exists>x \<in> set row. isnan_op (const_ops [[NaN]] [0]) x) \<and>
   rest_of_training (const_ops [[NaN]] [0]) 2
       (train_init (const_ops [[NaN]] [0]) tiny_float 2 (\<lambda>k. 0)) [0, 1] [1, 2]
     = hyper_step ((train_init (const_ops [[NaN]] [0]) tiny_float 2 (\<lambda>k. 0))\<lparr>tr_done := True\<rparr>)"
proof -
  let ?ops = "const_ops [[NaN]] [0]"
  let ?st = "train_init ?ops tiny_float 2 (\<lambda>k. 0)"
  have a1: "py_slice (tr_inds ?st) 0 (nat 2) = Inr [0]"
    by (simp add: py_slice_def train_init_def numeral_2_eq_2 upt_rec[of 0])
  have a2: "forward_op ?ops (tr_self ?st) [0] (tr_rng ?st) = Inr (([], [[NaN]], [], []), tr_rng ?st)"
    by (simp add: const_ops_def)
  have a3: "backward_op ?ops (tr_self ?st) [0] ([], [[NaN]], [], []) = Inr (tr_self ?st)"
    by (simp add: const_ops_def)
  have a4: "update_params_op ?ops (tr_self ?st) [0] = Inr (tr_self ?st)"
    by (simp add: const_ops_def)
  have a5: "\<exists>row \<in> set (acts_of ([], [[NaN]], [], [])). \<exists>x \<in> set row. isnan_op ?ops x"
    by (simp add: acts_of_def const_ops_def)
  from nan_stops_training[OF a1 a2 a3 a4 a5, of "[1]" "[1, 2]"] a1 a5 show ?thesis by simp
qed

text \<open>
  C8. At a validation, when the evaluator returns at least one score: if the last score
  is greater than or equal to the best so far, the patience counter is reset to 0, the
  score becomes the best, the model is handed to \<^verbatim>\<open>save_model\<close>, and the loop goes on;
  otherwise the counter is incremented, and exactly when it then equals the threshold 10
  (the constant \<^verbatim>\<open>patience\<close> of \<^verbatim>\<open>train\<close>) \<^verbatim>\<open>done\<close> is set and the loop is left. When the body
  of minibatch \<open>m\<close> ends in this validation, then in the stopping case all that is left of
  the training is the schedule step of lines 336-337, and in the two other cases training
  goes on with the next minibatch.
\<close>

theorem validation_patience:
  assumes "compute_bleu ops (tr_self st) \<noteq> []"
  shows "patience = 10 \<and>
     (tr_best st \<le> last (compute_bleu ops (tr_self st)) \<longrightarrow>
        validate ops st
          = Inr (st\<lparr>tr_bleu := compute_bleu ops (tr_self st), tr_count := 0,
                    tr_best := last (compute_bleu ops (tr_self st)),
                    tr_saved := tr_saved st @ [tr_self st]\<rparr>, False)) \<and>
     (last (compute_bleu ops (tr_self st)) < tr_best st \<longrightarrow>
        validate ops st
          = Inr (st\<lparr>tr_bleu := compute_bleu ops (tr_self st), tr_count := tr_count st + 1,
                    tr_done := (tr_count st + 1 = patience \<or> tr_done st)\<rparr>,
                 tr_count st + 1 = patience)) \<and>
     (\<forall>nb st0 m ms es. minibatch_body ops (nat nb) st0 m = validate ops st \<longrightarrow>
        rest_of_training ops nb st0 (m # ms) es
          = (if last (compute_bleu ops (tr_self st)) < tr_best st \<and> tr_count st + 1 = patience
             then hyper_step (st\<lparr>tr_bleu := compute_bleu ops (tr_self st),
                                 tr_count := tr_count st + 1, tr_done := True\<rparr>)
             else if last (compute_bleu ops (tr_self st)) < tr_best st
             then rest_of_training ops nb
                    (st\<lparr>tr_bleu := compute_bleu ops (tr_self st),
                        tr_count := tr_count st + 1\<rparr>) ms es
             else rest_of_training ops nb
                    (st\<lparr>tr_bleu := compute_bleu ops (tr_self st), tr_count := 0,
                        tr_best := last (compute_bleu ops (tr_self st)),
                        tr_saved := tr_saved st @ [tr_self st]\<rparr>) ms es))"
proof -
  let ?b = "compute_bleu ops (tr_self st)"
  have good: "tr_best st \<le> last ?b \<longrightarrow>
        validate ops st
          = Inr (st\<lparr>tr_bleu := ?b, tr_count := 0, tr_best := last ?b,
                    tr_saved := tr_saved st @ [tr_self st]\<rparr>, False)"
    using assms by (simp add: validate_def Let_def)
  have bad: "last ?b < tr_best st \<longrightarrow>
        validate ops st
          = Inr (st\<lparr>tr_bleu := ?b, tr_count := tr_count st + 1,
                    tr_done := (tr_count st + 1 = patience \<or> tr_done st)\<rparr>,
                 tr_count st + 1 = patience)"
    using assms by (auto simp: validate_def Let_def)
  have loop: "\<forall>nb st0 m ms es. minibatch_body ops (nat nb) st0 m = validate ops st \<longrightarrow>
        rest_of_training ops nb st0 (m # ms) es
          = (if last ?b < tr_best st \<and> tr_count st + 1 = patience
             then hyper_step (st\<lparr>tr_bleu := ?b, tr_count := tr_count st + 1, tr_done := True\<rparr>)
             else if last ?b < tr_best st
             then rest_of_training ops nb (st\<lparr>tr_bleu := ?b, tr_count := tr_count st + 1\<rparr>) ms es
             else rest_of_training ops nb
                    (st\<lparr>tr_bleu := ?b, tr_count := 0, tr_best := last ?b,
                        tr_saved := tr_saved st @ [tr_self st]\<rparr>) ms es)"
  proof (intro allI impI)
    fix nb st0 m ms es
    assume body: "minibatch_body ops (nat nb) st0 m = validate ops st"
    consider (stop) "last ?b < tr_best st" "tr_count st + 1 = patience"
      | (worse) "last ?b < tr_best st" "tr_count st + 1 \<noteq> patience"
      | (better) "tr_best st \<le> last ?b" by linarith
    then show "rest_of_training ops nb st0 (m # ms) es
          = (if last ?b < tr_best st \<and> tr_count st + 1 = patience
             then hyper_step (st\<lparr>tr_bleu := ?b, tr_count := tr_count st + 1, tr_done := True\<rparr>)
             else if last ?b < tr_best st
             then rest_of_training ops nb (st\<lparr>tr_bleu := ?b, tr_count := tr_count st + 1\<rparr>) ms es
             else rest_of_training ops nb
                    (st\<lparr>tr_bleu := ?b, tr_count := 0, tr_best := last ?b,
                        tr_saved := tr_saved st @ [tr_self st]\<rparr>) ms es)"
    proof cases
      case stop
      then have "minibatch_body ops (nat nb) st0 m
          = Inr (st\<lparr>tr_bleu := ?b, tr_count := tr_count st + 1, tr_done := True\<rparr>, True)"
        using body bad by simp
      then show ?thesis using stop by (simp add: rest_after_break)
    next
      case worse
      then have "minibatch_body ops (nat nb) st0 m
          = Inr (st\<lparr>tr_bleu := ?b, tr_count := tr_count st + 1, tr_done := tr_done st\<rparr>, False)"
        using body bad by simp
      then have "minibatch_body ops (nat nb) st0 m
          = Inr (st\<lparr>tr_bleu := ?b, tr_count := tr_count st + 1\<rparr>, False)" by simp
      then show ?thesis using worse by (simp add: rest_after_continue)
    next
      case better
      then have "minibatch_body ops (nat nb) st0 m
          = Inr (st\<lparr>tr_bleu := ?b, tr_count := 0, tr_best := last ?b,
                    tr_saved := tr_saved st @ [tr_self st]\<rparr>, False)"
        using body good by simp
      then show ?thesis using better by (simp add: rest_after_continue)
    qed
  qed
  show ?thesis using good bad loop by (simp add: patience_def)
qed


theorem validation_patience_witness:
  "compute_bleu (const_ops [] [1/2, 2/5]) (tr_self ((train_init (const_ops [] [1/2, 2/5]) tiny_float 2 (\<lambda>k. 0))\<lparr>tr_best := 1/2, tr_count := 9\<rparr>)) \<noteq> [] \<and>
   validate (const_ops [] [1/2, 2/5])
       ((train_init (const_ops [] [1/2, 2/5]) tiny_float 2 (\<lambda>k. 0))\<lparr>tr_best := 1/2, tr_count := 9\<rparr>)
     = Inr ((train_init (const_ops [] [1/2, 2/5]) tiny_float 2 (\<lambda>k. 0))
              \<lparr>tr_bleu := [1/2, 2/5], tr_best := 1/2, tr_count := 10, tr_done := True\<rparr>, True)"
proof -
  let ?ops = "const_ops [] [1/2, 2/5]"
  let ?st = "(train_init ?ops tiny_float 2 (\<lambda>k. 0))\<lparr>tr_best := 1/2, tr_count := 9\<rparr>"
  have a: "compute_bleu ?ops (tr_self ?st) \<noteq> []" by (simp add: const_ops_def)
  have b: "compute_bleu ?ops (tr_self ?st) = [1/2, 2/5]" by (simp add: const_ops_def)
  have c: "tr_best ?st = 1/2" "tr_count ?st = 9" "tr_done ?st = False"
    by (simp_all add: train_init_def)
  from validation_patience[OF a] have "last (compute_bleu ?ops (tr_self ?st)) < tr_best ?st \<longrightarrow>
        validate ?ops ?st
          = Inr (?st\<lparr>tr_bleu := compute_bleu ?ops (tr_self ?st), tr_count := tr_count ?st + 1,
                    tr_done := (tr_count ?st + 1 = patience \<or> tr_done ?st)\<rparr>,
                 tr_count ?st + 1 = patience)"
    by (elim conjE)
  then show ?thesis using a unfolding b c by (simp add: patience_def)
qed
section \<open>The softmax and the shapes in \<^verbatim>\<open>forward\<close>\<close>

lemma sum_list_pos_real:
  fixes xs :: "real list"
  shows "xs \<noteq> [] \<Longrightarrow> \<forall>x \<in> set xs. 0 < x \<Longrightarrow> 0 < sum_list xs"
proof (induction xs)
  case Nil
  then show ?case by simp
next
  case (Cons x xs)
  then show ?case by (cases xs) (auto intro: add_pos_pos)
qed

lemma sum_list_divide_real:
  fixes xs :: "real list"
  shows "sum_list (map (\<lambda>x. x / z) xs) = sum_list xs / z"
  by (induction xs) (simp_all add: add_divide_distrib)

lemma softmax_row_distribution:
  assumes "row \<noteq> []"
  shows "\<exists>p. softmax_row row = Inr p \<and> length p = length row \<and>
           (\<forall>x \<in> set p. 0 \<le> x) \<and> sum_list p = 1 \<and>
           p = map (\<lambda>x. exp (x - Max (set row)) / (\<Sum>y\<leftarrow>row. exp (y - Max (set row)))) row"
proof -
  define m where "m = Max (set row)"
  define e where "e = map (\<lambda>x. exp (x - m)) row"
  define z where "z = sum_list e"
  have e: "e \<noteq> []" "\<forall>x \<in> set e. 0 < x" using assms by (auto simp: e_def)
  then have z: "0 < z" unfolding z_def by (rule sum_list_pos_real)
  have sm: "softmax_row row = Inr (map (\<lambda>x. x / z) e)"
    using assms by (simp add: softmax_row_def Let_def m_def e_def z_def)
  moreover have "length (map (\<lambda>x. x / z) e) = length row" by (simp add: e_def)
  moreover have "\<forall>x \<in> set (map (\<lambda>x. x / z) e). 0 \<le> x"
    using e(2) z by (auto intro!: divide_nonneg_pos less_imp_le)
  moreover have "sum_list (map (\<lambda>x. x / z) e) = 1"
    using z by (simp add: sum_list_divide_real z_def)
  moreover have "map (\<lambda>x. x / z) e
      = map (\<lambda>x. exp (x - Max (set row)) / (\<Sum>y\<leftarrow>row. exp (y - Max (set row)))) row"
    by (simp add: e_def z_def m_def comp_def)
  ultimately show ?thesis by blast
qed

lemma softmax_distribution:
  assumes "\<forall>row \<in> set A. length row = n" "0 < n"
  shows "\<exists>P. softmax A = Inr P \<and> length P = length A \<and>
           (\<forall>row \<in> set P. length row = n \<and> (\<forall>x \<in> set row. 0 \<le> x) \<and> sum_list row = 1) \<and>
           (\<forall>i < length A. P ! i
              = map (\<lambda>x. exp (x - Max (set (A ! i))) / (\<Sum>y\<leftarrow>A ! i. exp (y - Max (set (A ! i)))))
                  (A ! i))"
  using assms(1)
proof (induction A)
  case Nil
  then show ?case by simp
next
  case (Cons row A)
  then have "row \<noteq> []" using assms(2) by auto
  from softmax_row_distribution[OF this] obtain p where
    p: "softmax_row row = Inr p" "length p = length row" "\<forall>x \<in> set p. 0 \<le> x" "sum_list p = 1"
      "p = map (\<lambda>x. exp (x - Max (set row)) / (\<Sum>y\<leftarrow>row. exp (y - Max (set row)))) row"
    by blast
  from Cons obtain P where
    P: "softmax A = Inr P" "length P = length A"
       "\<forall>row \<in> set P. length row = n \<and> (\<forall>x \<in> set row. 0 \<le> x) \<and> sum_list row = 1"
       "\<forall>i < length A. P ! i
              = map (\<lambda>x. exp (x - Max (set (A ! i))) / (\<Sum>y\<leftarrow>A ! i. exp (y - Max (set (A ! i)))))
                  (A ! i)"
    by auto
  have "softmax (row # A) = Inr (p # P)" using p(1) P(1) by simp
  moreover have "length (p # P) = length (row # A)" using P(2) by simp
  moreover have "\<forall>r \<in> set (p # P). length r = n \<and> (\<forall>x \<in> set r. 0 \<le> x) \<and> sum_list r = 1"
    using p(2,3,4) P(3) Cons.prems by simp
  moreover have "\<forall>i < length (row # A). (p # P) ! i
      = map (\<lambda>x. exp (x - Max (set ((row # A) ! i)))
                  / (\<Sum>y\<leftarrow>(row # A) ! i. exp (y - Max (set ((row # A) ! i)))))
          ((row # A) ! i)"
  proof (intro allI impI)
    fix i assume "i < length (row # A)"
    then show "(p # P) ! i
      = map (\<lambda>x. exp (x - Max (set ((row # A) ! i)))
                  / (\<Sum>y\<leftarrow>(row # A) ! i. exp (y - Max (set ((row # A) ! i)))))
          ((row # A) ! i)"
      using p(5) P(4) by (cases i) simp_all
  qed
  ultimately show ?case by blast
qed

text \<open>Lengths.\<close>

lemma length_np_dot [simp]: "length (np_dot A B) = length A"
  by (simp add: np_dot_def)

lemma row_np_dot: "r \<in> set (np_dot A B) \<Longrightarrow> length r = ncols B"
  by (auto simp: np_dot_def)

lemma length_madd_row [simp]: "length (madd_row A v) = length A"
  by (simp add: madd_row_def)

lemma length_badd [simp]: "length (badd A b) = length A"
  by (simp add: badd_def)

lemma length_mul_mask [simp]: "length (mul_mask A B) = min (length A) (length B)"
  by (simp add: mul_mask_def)

lemma length_gt0 [simp]: "length (gt0 A) = length A"
  by (simp add: gt0_def)

lemma length_np_zeros [simp]: "length (np_zeros m n) = m"
  by (simp add: np_zeros_def)

lemma length_words_at [simp]: "length (words_at words i) = length words"
  by (simp add: words_at_def)

lemma length_context_acts:
  "length words = length acts \<Longrightarrow> length (context_acts words Cs acts is) = length acts"
  by (induction "is" arbitrary: acts) (simp_all add: length_madd)

lemma ncols_is_matrix: "is_matrix m n A \<Longrightarrow> 0 < m \<Longrightarrow> ncols A = n"
  by (cases A) (auto simp: is_matrix_def ncols_def)

lemma np_index_in_range: "0 \<le> x \<Longrightarrow> x < int n \<Longrightarrow> np_index n x = Some (nat x)"
  by (simp add: np_index_def)

lemma length_concat_is_matrix: "is_matrix m n A \<Longrightarrow> length (concat A) = m * n"
proof -
  assume a: "is_matrix m n A"
  then have "map length A = replicate m n"
    by (auto simp: is_matrix_def intro!: replicate_eqI)
  then show ?thesis by (simp add: length_concat sum_list_replicate)
qed

lemma length_flatten_F:
  assumes "A \<noteq> []" "\<forall>r \<in> set A. length r = n"
  shows "length (flatten_F A) = n * length A"
proof -
  have nc: "ncols A = n" using assms by (cases A) (auto simp: ncols_def)
  have "map length (np_T A) = replicate n (length A)"
    by (auto simp: np_T_def col_def nc intro!: replicate_eqI)
  then show ?thesis by (simp add: flatten_F_def length_concat sum_list_replicate)
qed

lemma length_np_random_rand [simp]: "length (fst (np_random_rand g m n)) = m"
  by (simp add: np_random_rand_def)

lemma take_cols_in_range:
  assumes "shapes_ok s" "batch_ok s X Imf"
  shows "take_cols (R s) (concat X)
     = Inr (map (\<lambda>row. map (\<lambda>x. row ! the (np_index (ncols (R s)) x)) (concat X)) (R s))"
proof -
  have "ncols (R s) = V s"
    using assms(1) ncols_is_matrix[of "K s" "V s" "R s"] by (simp add: shapes_ok_def)
  moreover have "\<forall>x \<in> set (concat X). 0 \<le> x \<and> x < int (V s)"
    using assms(2) by (auto simp: batch_ok_def)
  ultimately have "\<forall>x \<in> set (concat X). np_index (ncols (R s)) x \<noteq> None"
    by (simp add: np_index_in_range)
  then show ?thesis by (simp add: take_cols_def)
qed

lemma reshape_gathered:
  assumes "shapes_ok s" "batch_ok s X Imf"
    and "cols = map (\<lambda>row. map (g row) (concat X)) (R s)"
  shows "\<exists>tmp. reshape (length X) (K s * context_len s) (flatten_F cols) = Inr tmp \<and>
           length tmp = length X"
proof -
  have r: "length (R s) = K s" "0 < K s" using assms(1) by (simp_all add: shapes_ok_def is_matrix_def)
  have lx: "length (concat X) = length X * context_len s"
    using assms(2) by (simp add: batch_ok_def length_concat_is_matrix)
  have "cols \<noteq> []" using r unfolding assms(3) by auto
  moreover have "\<forall>r \<in> set cols. length r = length X * context_len s"
    unfolding assms(3) using lx by auto
  ultimately have "length (flatten_F cols) = length X * context_len s * length cols"
    by (rule length_flatten_F)
  then have "length (flatten_F cols) = length X * (K s * context_len s)"
    using r unfolding assms(3) by (simp add: mult.commute mult.left_commute)
  then show ?thesis by (simp add: reshape_def)
qed

lemma forward_scores:
  assumes "shapes_ok s" "batch_ok s X Imf"
  shows "\<exists>words acts IF g'. length acts = length X \<and>
     forward s X Imf test g
       = (case softmax (badd (np_dot acts (R s)) (bw s)) of
            Inl e \<Rightarrow> Inl e
          | Inr preds \<Rightarrow> Inr ((words, acts, IF, preds), g'))"
proof -
  define n where "n = length X"
  define IF1 where "IF1 = mul_mask (badd (np_dot Imf (J s)) (bj s)) (gt0 (badd (np_dot Imf (J s)) (bj s)))"
  define pr where "pr =
     (if dropout s > 0 \<and> \<not> test then
        (let (u, g') = np_random_rand g n (h s);
             dropmask = map (map (\<lambda>x. x > dropout s)) u
         in (mul_mask IF1 dropmask, g'))
      else (IF1, g))"
  obtain IF2 g2 where pr: "pr = (IF2, g2)" by (cases pr)
  have li: "length Imf = n" using assms(2) by (simp add: batch_ok_def is_matrix_def n_def)
  then have l1: "length IF1 = n" by (simp add: IF1_def)
  have l2: "length IF2 = n"
  proof (cases "dropout s > 0 \<and> \<not> test")
    case True
    obtain u g' where u: "np_random_rand g n (h s) = (u, g')" by (cases "np_random_rand g n (h s)")
    then have "length u = n" using length_np_random_rand[of g n "h s"] by simp
    then show ?thesis using pr True u l1 by (auto simp: pr_def Let_def)
  next
    case False
    then show ?thesis using pr l1 by (auto simp: pr_def)
  qed
  define cols where "cols = map (\<lambda>row. map (\<lambda>x. row ! the (np_index (ncols (R s)) x)) (concat X)) (R s)"
  have tc: "take_cols (R s) (concat X) = Inr cols"
    unfolding cols_def using assms by (rule take_cols_in_range)
  from reshape_gathered[OF assms cols_def] obtain tmp where
    tmp: "reshape n (K s * context_len s) (flatten_F cols) = Inr tmp" "length tmp = n"
    unfolding n_def by blast
  define words where "words = map (reshape_F (K s) (context_len s)) tmp"
  define acts0 where
    "acts0 = context_acts words (C s) (np_zeros n (K s)) [0..<context_len s]"
  define acts where
    "acts = (if test then madd acts0 (np_dot IF2 (smul (1 - dropout s) (M s)))
             else madd acts0 (np_dot IF2 (M s)))"
  have "length words = n" using tmp(2) by (simp add: words_def)
  then have "length acts0 = n" unfolding acts0_def by (simp add: length_context_acts)
  then have la: "length acts = n" using l2 by (simp add: acts_def length_madd)
  have "forward s X Imf test g
       = (case pr of (IF, g) \<Rightarrow>
           (case take_cols (R s) (concat X) of
             Inl e \<Rightarrow> Inl e
           | Inr cols \<Rightarrow>
             (case reshape n (K s * context_len s) (flatten_F cols) of
                Inl e \<Rightarrow> Inl e
              | Inr tmp \<Rightarrow>
                (let words = map (reshape_F (K s) (context_len s)) tmp;
                     acts = context_acts words (C s) (np_zeros n (K s)) [0..<context_len s];
                     acts =
                       (if test then madd acts (np_dot IF (smul (1 - dropout s) (M s)))
                        else madd acts (np_dot IF (M s)))
                 in case softmax (badd (np_dot acts (R s)) (bw s)) of
                      Inl e \<Rightarrow> Inl e
                    | Inr preds \<Rightarrow> Inr ((words, acts, IF, preds), g)))))"
    unfolding forward_def pr_def IF1_def n_def Let_def ..
  also have "\<dots> = (case softmax (badd (np_dot acts (R s)) (bw s)) of
            Inl e \<Rightarrow> Inl e
          | Inr preds \<Rightarrow> Inr ((words, acts, IF2, preds), g2))"
    unfolding pr tc acts_def acts0_def words_def by (simp add: tmp(1) Let_def)
  finally show ?thesis using la unfolding n_def by blast
qed

lemma scores_rows:
  assumes "shapes_ok s"
  shows "\<forall>row \<in> set (badd (np_dot acts (R s)) (bw s)). length row = V s"
proof -
  have nc: "ncols (R s) = V s"
    using assms ncols_is_matrix[of "K s" "V s" "R s"] by (simp add: shapes_ok_def)
  have "is_matrix 1 (V s) (bw s)" using assms by (simp add: shapes_ok_def)
  then have "length (bw s ! 0) = V s" by (auto simp: is_matrix_def)
  then show ?thesis
    by (auto simp: badd_def madd_row_def nc dest!: row_np_dot)
qed

section \<open>Claim on the forward pass\<close>


lemma tiny_shapes: "shapes_ok tiny"
  by (simp add: shapes_ok_def is_matrix_def tiny_def tiny_with_def)

lemma tiny_batch: "batch_ok tiny [[0]] [[1::real]]"
  by (simp add: batch_ok_def is_matrix_def tiny_def tiny_with_def)

section \<open>The gradient of the tied matrix\<close>

lemma is_matrix_dims: "is_matrix m n A \<Longrightarrow> is_matrix m n B \<Longrightarrow> dims B = dims A"
proof -
  assume a: "is_matrix m n A" "is_matrix m n B"
  then have "map length A = replicate m n" "map length B = replicate m n"
    by (auto simp: is_matrix_def intro!: replicate_eqI)
  then show ?thesis by (simp add: dims_def)
qed

lemma is_matrix_nth: "is_matrix m n A \<Longrightarrow> i < m \<Longrightarrow> length (A ! i) = n"
  by (simp add: is_matrix_def)

lemma is_matrix_np_dot: "is_matrix (length A) (ncols B) (np_dot A B)"
  by (auto simp: is_matrix_def np_dot_def)

lemma is_matrix_np_T: "is_matrix (ncols A) (length A) (np_T A)"
  by (auto simp: is_matrix_def np_T_def col_def)

lemma is_matrix_smul: "is_matrix m n A \<Longrightarrow> is_matrix m n (smul c A)"
  by (auto simp: is_matrix_def smul_def vsmul_def)

lemma is_matrix_sdiv: "is_matrix m n A \<Longrightarrow> is_matrix m n (sdiv A c)"
  by (auto simp: is_matrix_def sdiv_def)

lemma is_matrix_msub: "is_matrix m n A \<Longrightarrow> is_matrix m n B \<Longrightarrow> is_matrix m n (msub A B)"
  by (auto simp: is_matrix_def msub_def vsub_def in_set_zip)

lemma is_matrix_madd: "is_matrix m n A \<Longrightarrow> is_matrix m n B \<Longrightarrow> is_matrix m n (madd A B)"
  by (auto simp: is_matrix_def madd_def vadd_def in_set_zip)

lemma is_matrix_add_col:
  "is_matrix m n A \<Longrightarrow> length v = m \<Longrightarrow> is_matrix m n (add_col A x v)"
  by (auto simp: is_matrix_def add_col_def in_set_zip)

lemma add_col_entry:
  assumes "is_matrix m n A" "length v = m" "k < m"
  shows "add_col A x v ! k ! u = (if u = x \<and> x < n then A ! k ! u + v ! k else A ! k ! u)"
proof -
  have "length (A ! k) = n" using assms(1,3) by (simp add: is_matrix_def)
  moreover have "add_col A x v ! k = (A ! k)[x := A ! k ! x + v ! k]"
    using assms by (simp add: add_col_def is_matrix_def)
  ultimately show ?thesis
    by (cases "x < n") (auto simp: nth_list_update list_update_beyond)
qed


text \<open>The loop over the examples at one context position.\<close>

lemma scatter_rows_sum:
  assumes "is_matrix m n dRa" "0 < m"
    and "\<forall>j \<in> set js. length (delta ! j) = m \<and> 0 \<le> X ! j ! i \<and> X ! j ! i < int n"
  shows "\<exists>dR'. scatter_rows dRa X i delta js = Inr dR' \<and> is_matrix m n dR' \<and>
     (\<forall>k < m. \<forall>u < n. dR' ! k ! u
        = dRa ! k ! u + (\<Sum>j\<leftarrow>js. if X ! j ! i = int u then delta ! j ! k else 0))"
  using assms
proof (induction js arbitrary: dRa)
  case Nil
  then show ?case by simp
next
  case (Cons j js)
  define x where "x = nat (X ! j ! i)"
  have "0 \<le> X ! j ! i" "X ! j ! i < int n" using Cons.prems(3) by simp_all
  then have xr: "x < n" "X ! j ! i = int x" by (simp_all add: x_def nat_less_iff)
  have nc: "ncols dRa = n" using Cons.prems(1,2) by (cases dRa) (auto simp: is_matrix_def ncols_def)
  have idx: "np_index (ncols dRa) (X ! j ! i) = Some x"
    unfolding nc using xr by (simp add: np_index_def)
  have lv: "length (delta ! j) = m" using Cons.prems(3) by simp
  have m1: "is_matrix m n (add_col dRa x (delta ! j))"
    using Cons.prems(1) lv by (rule is_matrix_add_col)
  from Cons.IH[OF m1 Cons.prems(2)] Cons.prems(3) obtain dR' where
    r: "scatter_rows (add_col dRa x (delta ! j)) X i delta js = Inr dR'" "is_matrix m n dR'"
       "\<forall>k < m. \<forall>u < n. dR' ! k ! u
          = add_col dRa x (delta ! j) ! k ! u
            + (\<Sum>j\<leftarrow>js. if X ! j ! i = int u then delta ! j ! k else 0)"
    by auto
  have "scatter_rows dRa X i delta (j # js) = Inr dR'" using idx r(1) by simp
  moreover have "\<forall>k < m. \<forall>u < n. dR' ! k ! u
        = dRa ! k ! u + (\<Sum>j\<leftarrow>j # js. if X ! j ! i = int u then delta ! j ! k else 0)"
  proof (intro allI impI)
    fix k u assume k: "k < m" and u: "u < n"
    have "add_col dRa x (delta ! j) ! k ! u
        = dRa ! k ! u + (if X ! j ! i = int u then delta ! j ! k else 0)"
      using add_col_entry[OF Cons.prems(1) lv k, of x u] xr by auto
    then show "dR' ! k ! u
        = dRa ! k ! u + (\<Sum>j\<leftarrow>j # js. if X ! j ! i = int u then delta ! j ! k else 0)"
      using r(3) k u by simp
  qed
  ultimately show ?case using r(2) by blast
qed

lemma ncols_np_T_pos:
  assumes "is_matrix m n A" "0 < m" "0 < n"
  shows "ncols (np_T A) = m" "is_matrix n m (np_T A)"
proof -
  have nc: "ncols A = n" using assms(1,2) by (rule ncols_is_matrix)
  show t: "is_matrix n m (np_T A)"
    using is_matrix_np_T[of A] assms(1) unfolding nc by (simp add: is_matrix_def)
  show "ncols (np_T A) = m" using t assms(3) by (rule ncols_is_matrix)
qed

text \<open>The loop over the context positions.\<close>

lemma context_grads_sum:
  assumes "is_matrix m n dRa" "0 < m"
    and "\<forall>c \<in> set cs. \<forall>j < length X.
           length (np_dot Ix (np_T (Cs ! c)) ! j) = m \<and> 0 \<le> X ! j ! c \<and> X ! j ! c < int n"
  shows "\<exists>dC' dR'. context_grads Cs words Ix X (dCa, dRa) cs = Inr (dC', dR') \<and>
     is_matrix m n dR' \<and>
     (\<forall>k < m. \<forall>u < n. dR' ! k ! u
        = dRa ! k ! u
          + (\<Sum>c\<leftarrow>cs. \<Sum>j\<leftarrow>[0..<length X].
               if X ! j ! c = int u then np_dot Ix (np_T (Cs ! c)) ! j ! k else 0))"
  using assms
proof (induction cs arbitrary: dCa dRa)
  case Nil
  then show ?case by simp
next
  case (Cons c cs)
  define delta where "delta = np_dot Ix (np_T (Cs ! c))"
  define dC1 where "dC1 = dCa[c := np_dot (np_T (words_at words c)) Ix]"
  have "\<forall>j \<in> set [0..<length X]. length (delta ! j) = m \<and> 0 \<le> X ! j ! c \<and> X ! j ! c < int n"
    using Cons.prems(3) by (simp add: delta_def)
  from scatter_rows_sum[OF Cons.prems(1,2) this] obtain dR1 where
    s: "scatter_rows dRa X c delta [0..<length X] = Inr dR1" "is_matrix m n dR1"
       "\<forall>k < m. \<forall>u < n. dR1 ! k ! u
          = dRa ! k ! u + (\<Sum>j\<leftarrow>[0..<length X]. if X ! j ! c = int u then delta ! j ! k else 0)"
    by blast
  have rest: "\<forall>c \<in> set cs. \<forall>j < length X.
           length (np_dot Ix (np_T (Cs ! c)) ! j) = m \<and> 0 \<le> X ! j ! c \<and> X ! j ! c < int n"
    using Cons.prems(3) by simp
  from Cons.IH[OF s(2) Cons.prems(2) rest, of dC1] obtain dC' dR' where
    r: "context_grads Cs words Ix X (dC1, dR1) cs = Inr (dC', dR')" "is_matrix m n dR'"
       "\<forall>k < m. \<forall>u < n. dR' ! k ! u
          = dR1 ! k ! u
            + (\<Sum>c\<leftarrow>cs. \<Sum>j\<leftarrow>[0..<length X].
                 if X ! j ! c = int u then np_dot Ix (np_T (Cs ! c)) ! j ! k else 0)"
    by blast
  have "context_grads Cs words Ix X (dCa, dRa) (c # cs) = Inr (dC', dR')"
    using s(1) r(1) by (simp add: Let_def delta_def dC1_def)
  moreover have "\<forall>k < m. \<forall>u < n. dR' ! k ! u
        = dRa ! k ! u
          + (\<Sum>c\<leftarrow>c # cs. \<Sum>j\<leftarrow>[0..<length X].
               if X ! j ! c = int u then np_dot Ix (np_T (Cs ! c)) ! j ! k else 0)"
    using r(3) s(3)[unfolded delta_def] by (simp add: add.assoc)
  ultimately show ?case using r(2) by blast
qed

lemma sum_list_upt_lessThan: "(\<Sum>i\<leftarrow>[0..<n]. g i) = (\<Sum>i<n. g i)"
  for g :: "nat \<Rightarrow> real"
  by (simp add: interv_sum_list_conv_sum_set_nat atLeast0LessThan)

lemma backward_dR:
  assumes sh: "shapes_ok s" and bt: "batch_ok s X Imf" and ne: "X \<noteq> []"
    and pr: "is_matrix (length X) (V s) preds" and yy: "is_matrix (length X) (V s) Y"
    and ac: "is_matrix (length X) (K s) acts"
  shows "\<exists>s'. backward s Y preds IF acts words X Imf = Inr s' \<and>
     is_matrix (K s) (V s) (dR s') \<and>
     (\<forall>k < K s. \<forall>v < V s. dR s' ! k ! v
        = np_dot (np_T acts) (sdiv (msub preds Y) (real (length X))) ! k ! v
          + (\<Sum>c<context_len s. \<Sum>j<length X.
               if X ! j ! c = int v
               then np_dot (np_dot (sdiv (msub preds Y) (real (length X))) (np_T (R s)))
                      (np_T (C s ! c)) ! j ! k
               else 0)
          + gamma_r s * R s ! k ! v) \<and>
     R s' = R s \<and> C s' = C s \<and> bw s' = bw s \<and> M s' = M s \<and> J s' = J s \<and> bj s' = bj s"
proof -
  define n where "n = length X"
  have n: "0 < n" using ne by (simp add: n_def)
  have np: "length preds = n" using pr by (simp add: is_matrix_def n_def)
  have pos: "0 < V s" "0 < K s" using sh by (simp_all add: shapes_ok_def)
  have Rm: "is_matrix (K s) (V s) (R s)" using sh by (simp add: shapes_ok_def)
  define Ix1 where "Ix1 = sdiv (msub preds Y) (real n)"
  define dR0 where "dR0 = np_dot (np_T acts) Ix1"
  define Ix2 where "Ix2 = np_dot Ix1 (np_T (R s))"
  have i1: "is_matrix n (V s) Ix1"
    unfolding Ix1_def using pr yy by (simp add: is_matrix_sdiv is_matrix_msub n_def)
  have nc1: "ncols Ix1 = V s" using i1 n by (rule ncols_is_matrix)
  have "ncols acts = K s" using ac n unfolding n_def by (rule ncols_is_matrix)
  then have "length (np_T acts) = K s" using is_matrix_np_T[of acts] by (simp add: is_matrix_def)
  then have d0: "is_matrix (K s) (V s) dR0"
    unfolding dR0_def using is_matrix_np_dot[of "np_T acts" Ix1] by (simp add: nc1)
  have "ncols (np_T (R s)) = K s" using Rm pos(2,1) by (rule ncols_np_T_pos)
  then have i2: "is_matrix n (K s) Ix2"
    unfolding Ix2_def using is_matrix_np_dot[of Ix1 "np_T (R s)"] i1 by (simp add: is_matrix_def)
  have rng: "\<forall>c \<in> set [0..<context_len s]. \<forall>j < length X.
           length (np_dot Ix2 (np_T (C s ! c)) ! j) = K s \<and> 0 \<le> X ! j ! c \<and> X ! j ! c < int (V s)"
  proof (intro ballI allI impI)
    fix c j assume c: "c \<in> set [0..<context_len s]" and j: "j < length X"
    have cm: "is_matrix (K s) (K s) (C s ! c)" using sh c by (simp add: shapes_ok_def)
    have "ncols (np_T (C s ! c)) = K s" using cm pos(2,2) by (rule ncols_np_T_pos)
    then have "is_matrix n (K s) (np_dot Ix2 (np_T (C s ! c)))"
      using is_matrix_np_dot[of Ix2 "np_T (C s ! c)"] i2 by (simp add: is_matrix_def)
    then have a: "length (np_dot Ix2 (np_T (C s ! c)) ! j) = K s"
      using j by (simp add: is_matrix_def n_def)
    have xj: "X ! j \<in> set X" using j by simp
    then have "length (X ! j) = context_len s" using bt by (simp add: batch_ok_def is_matrix_def)
    then have "X ! j ! c \<in> set (X ! j)" using c by simp
    then have "0 \<le> X ! j ! c \<and> X ! j ! c < int (V s)" using bt xj by (auto simp: batch_ok_def)
    with a show "length (np_dot Ix2 (np_T (C s ! c)) ! j) = K s \<and> 0 \<le> X ! j ! c \<and> X ! j ! c < int (V s)"
      by simp
  qed
  from context_grads_sum[OF d0 pos(2) rng, of words "zeros_like3 (C s)"] obtain dC' dR' where
    cg: "context_grads (C s) words Ix2 X (zeros_like3 (C s), dR0) [0..<context_len s] = Inr (dC', dR')"
    and dm: "is_matrix (K s) (V s) dR'"
    and de: "\<forall>k < K s. \<forall>u < V s. dR' ! k ! u
        = dR0 ! k ! u
          + (\<Sum>c\<leftarrow>[0..<context_len s]. \<Sum>j\<leftarrow>[0..<length X].
               if X ! j ! c = int u then np_dot Ix2 (np_T (C s ! c)) ! j ! k else 0)"
    by blast
  define dRf where "dRf = madd dR' (smul (gamma_r s) (R s))"
  obtain s' where s': "backward s Y preds IF acts words X Imf = Inr s'" and
    f: "dR s' = dRf" "R s' = R s" "C s' = C s" "bw s' = bw s" "M s' = M s" "J s' = J s" "bj s' = bj s"
    using cg unfolding Ix2_def dR0_def Ix1_def dRf_def
    by (simp add: backward_def Let_def np)
  have gm: "is_matrix (K s) (V s) (smul (gamma_r s) (R s))" using Rm by (rule is_matrix_smul)
  have fm: "is_matrix (K s) (V s) dRf" unfolding dRf_def using dm gm by (rule is_matrix_madd)
  have dd: "dims (smul (gamma_r s) (R s)) = dims dR'" using dm gm by (rule is_matrix_dims)
  have ent: "\<forall>k < K s. \<forall>v < V s. dRf ! k ! v
        = dR0 ! k ! v
          + (\<Sum>c<context_len s. \<Sum>j<length X.
               if X ! j ! c = int v then np_dot Ix2 (np_T (C s ! c)) ! j ! k else 0)
          + gamma_r s * R s ! k ! v"
  proof (intro allI impI)
    fix k v assume k: "k < K s" and v: "v < V s"
    have lk: "k < length dR'" "v < length (dR' ! k)" "k < length (R s)" "v < length (R s ! k)"
      using dm Rm k v by (simp_all add: is_matrix_def)
    have "dRf ! k ! v = dR' ! k ! v + smul (gamma_r s) (R s) ! k ! v"
      unfolding dRf_def using add_entry[OF dd lk(1,2)] .
    also have "smul (gamma_r s) (R s) ! k ! v = gamma_r s * R s ! k ! v"
      using lk(3,4) by (simp add: nth_smul nth_vsmul)
    finally show "dRf ! k ! v
        = dR0 ! k ! v
          + (\<Sum>c<context_len s. \<Sum>j<length X.
               if X ! j ! c = int v then np_dot Ix2 (np_T (C s ! c)) ! j ! k else 0)
          + gamma_r s * R s ! k ! v"
      using de k v by (simp add: sum_list_upt_lessThan)
  qed
  show ?thesis
    using s' f fm ent unfolding dR0_def Ix2_def Ix1_def n_def by auto
qed

section \<open>Claim on the backward pass\<close>


section \<open>Claim on reproducibility\<close>

lemmas fw_defs = forward_def badd_def madd_row_def vadd_def np_dot_def inner_def col_def ncols_def
  mul_mask_def gt0_def np_random_rand_def take_cols_def np_index_def flatten_F_def np_T_def
  reshape_def reshape_F_def words_at_def np_zeros_def madd_def smul_def vsmul_def
  softmax_row_def Let_def

lemma upt2: "[0..<2] = [0, 1]" by (simp add: numeral_2_eq_2)

lemmas bw_defs = backward_def sdiv_def msub_def vsub_def np_sum0_def zeros_like3_def add_col_def
  add3_def smul3_def sub3_def msub_row_def update_params_def

lemmas tr_defs = train_def train_init_def mlbl_ops_def batch_rows_def take_rows_def
  minibatch_body_def py_slice_def nan_count_def acts_of_def np_mod_def hyper_step_def
  update_hyperparams_def

text \<open>
  C6. With dropout, two runs on the same seed, data and hyperparameters differ as soon as
  numpy's process-wide generator, which \<^verbatim>\<open>np.random.rand\<close> of line 145 draws from and
  which nothing in the file seeds, is in different states. The model \<open>tiny\<close> (dropout one
  half) is trained on one example for one epoch, once with a generator whose draws are 3/4
  (the hidden unit is kept) and once with draws 1/4 (it is dropped): the forward pass of
  the only minibatch returns the image activation 1 in the first run and 0 in the second,
  and after the run \<open>M\<close> is 21/20 in the first run and 1 in the second.
\<close>

theorem dropout_mask_not_seeded:
  "forward tiny [[0]] [[1]] False (\<lambda>k. 3/4)
     = Inr (([[[1]]], [[1]], [[1]], [[1/2, 1/2]]), \<lambda>k. 3/4) \<and>
   map_sum id (\<lambda>r. fst (snd (snd (fst r)))) (forward tiny [[0]] [[1]] False (\<lambda>k. 1/4))
     = Inr [[0]] \<and>
   map_sum id (\<lambda>r. M (tr_self (snd r)))
     (train (mlbl_ops [[0]] [[1, 0]] [0] [[1]] (\<lambda>self. self) (\<lambda>sd inds. inds) (\<lambda>self. [0]) 1000 1000)
        tiny 1 (\<lambda>k. 3/4)) = Inr [[21/20]] \<and>
   map_sum id (\<lambda>r. M (tr_self (snd r)))
     (train (mlbl_ops [[0]] [[1, 0]] [0] [[1]] (\<lambda>self. self) (\<lambda>sd inds. inds) (\<lambda>self. [0]) 1000 1000)
        tiny 1 (\<lambda>k. 1/4)) = Inr [[1]]"
  by (simp add: tr_defs bw_defs fw_defs tiny_def tiny_with_def upt2)

end
